theory Spec2Isabelle
  imports Main "HOL-Library.Sublist"
begin

section \<open>Data model\<close>

text \<open>
  The engine of \<^verbatim>\<open>src/index.ts\<close> keeps its state in module-level variables and in the
  local variables captured by the closures that \<^verbatim>\<open>signal\<close>, \<^verbatim>\<open>computed\<close>,
  \<^verbatim>\<open>reaction\<close> and \<^verbatim>\<open>once\<close> create. Here all of it is one record that every operation
  takes and returns. Closures written by the user of the library are programs of a small
  command language (\<open>prog\<close>), whose continuations are HOL functions, so a user function may
  compute anything from the values it reads.
\<close>

text \<open>A JavaScript value: \<^verbatim>\<open>undefined\<close> or a number.\<close>

datatype val = Undefined | Num int

type_synonym sid = nat \<comment> \<open>identity of a signal\<close>
type_synonym cid = nat \<comment> \<open>identity of a computed\<close>
type_synonym rid = nat \<comment> \<open>identity of a reaction\<close>
type_synonym oid = nat \<comment> \<open>identity of a direct \<^verbatim>\<open>once(observe, effect, options)\<close> call\<close>

text \<open>
  Every call of \<^verbatim>\<open>once\<close> creates a new \<^verbatim>\<open>observer\<close> closure: its identity is the number
  drawn from \<open>nextObserver\<close>, and \<open>owner\<close> says whose \<^verbatim>\<open>effect\<close> and \<^verbatim>\<open>onError\<close>
  it captured. A computed has the single \<^verbatim>\<open>computedObserver\<close> made when it was created.
\<close>

datatype owner = UserOnce oid | ReactionOnce rid

datatype observer = ComputedObserver cid | OnceObserver nat owner

datatype dependency = SignalDep sid | ObserverDep observer

fun isComputed :: "observer \<Rightarrow> bool" where
  "isComputed (ComputedObserver c) = True"
| "isComputed (OnceObserver k w) = False"

text \<open>
  An error object: its identity (\<open>ident\<close>, drawn from \<open>nextError\<close> by every
  \<^verbatim>\<open>new Error\<close>), its class, its message and the \<^verbatim>\<open>IS_STATIN_ERROR\<close> mark.
\<close>

datatype err_class = PlainError | CircularReactionError

record err =
  ident :: nat
  cls :: err_class
  message :: string
  statin_error :: bool

text \<open>\<^verbatim>\<open>describeError\<close>: a marked error is returned as it is; otherwise the same object
  gets the source in front of its message and the mark.\<close>

definition describeError :: "err \<Rightarrow> string \<Rightarrow> err" where
  "describeError maybeError source =
     (if statin_error maybeError then maybeError
      else maybeError\<lparr>message := ''Error in '' @ source @ '': '' @ message maybeError,
                      statin_error := True\<rparr>)"

text \<open>
  User code. \<open>Read\<close> is \<^verbatim>\<open>s()\<close>, \<open>Write\<close> is \<^verbatim>\<open>s(v)\<close>, \<open>Changed\<close> is \<^verbatim>\<open>s.changed()\<close>,
  \<open>Edit\<close> is \<^verbatim>\<open>s.edit(editor)\<close>, \<open>ReadComputed\<close> is \<^verbatim>\<open>c()\<close>, \<open>Throw\<close> is
  \<^verbatim>\<open>throw new Error(msg)\<close>, \<open>CallDisposer\<close> calls the disposer the closure received as
  its argument, \<open>Action\<close> is \<^verbatim>\<open>action(fn)\<close> for a function \<^verbatim>\<open>fn\<close> of the given name.
  Values are immutable here, so what an editor does inside the object it is handed is not
  represented; the engine never looks at it.
\<close>

datatype prog =
    Return val
  | Throw string
  | Read sid "val \<Rightarrow> prog"
  | Write sid val prog
  | Changed sid prog
  | Edit sid "val \<Rightarrow> prog" prog
  | ReadComputed cid "val \<Rightarrow> prog"
  | CallDisposer prog
  | Action string prog "val \<Rightarrow> prog"

text \<open>The arguments of \<^verbatim>\<open>computed\<close>, \<^verbatim>\<open>reaction\<close> and \<^verbatim>\<open>once\<close>, with the name
  \<^verbatim>\<open>fnName\<close> finds for each function and, for the two functions of a reaction, the
  source text \<^verbatim>\<open>toString()\<close> gives.\<close>

record computed_def =
  computeName :: string
  compute :: "val \<Rightarrow> prog"

record reaction_def =
  actionName :: string
  actionText :: string
  reactionAction :: prog
  effectName :: string
  effectText :: string
  reactionEffect :: "(val \<Rightarrow> prog) option"
  reactionOnError :: "(err \<Rightarrow> prog) option"
  immediate :: bool

record once_def =
  observerName :: string
  observe :: prog
  onceEffectName :: string
  onceEffectFn :: prog
  onceOnError :: "(err \<Rightarrow> prog) option"

record env =
  computeds :: "cid \<Rightarrow> computed_def"
  reactions :: "rid \<Rightarrow> reaction_def"
  onces :: "oid \<Rightarrow> once_def"

text \<open>
  The log of what was called: it is not part of the engine, it records the calls of
  observers and of user functions, in order, and keeps what \<^verbatim>\<open>console.error\<close>
  printed.
\<close>

datatype event =
    Invoked observer \<comment> \<open>an observer was called\<close>
  | Computing cid \<comment> \<open>the compute function of a computed was called\<close>
  | Observing oid \<comment> \<open>the first argument of a direct \<^verbatim>\<open>once\<close> was called\<close>
  | Effecting oid \<comment> \<open>the effect of a direct \<^verbatim>\<open>once\<close> was called\<close>
  | Acting rid \<comment> \<open>the action of a reaction was called\<close>
  | Reacting rid val \<comment> \<open>the effect of a reaction was called with this value\<close>
  | Editing sid val \<comment> \<open>an editor was called with this value\<close>
  | ActionBody string \<comment> \<open>the function given to \<^verbatim>\<open>action\<close> was called\<close>
  | Handling err \<comment> \<open>a user \<^verbatim>\<open>onError\<close> was called with this error\<close>
  | ConsoleError err \<comment> \<open>\<^verbatim>\<open>console.error\<close> was called with this error\<close>

text \<open>
  \<open>observersStack\<close> is kept top first. The two \<^verbatim>\<open>WeakMap\<close>s and the \<^verbatim>\<open>Set\<close>s in them are
  maps to lists without repetition, in insertion order, which is the order a JavaScript
  \<^verbatim>\<open>Set\<close> iterates in. \<open>cerror\<close> holds \<^verbatim>\<open>hasError\<close> and \<^verbatim>\<open>error\<close> of a computed, which
  the source always assigns together: \<open>None\<close> is \<^verbatim>\<open>hasError = false; error = undefined\<close>.
  \<open>internalDisposerCalled\<close> is the local variable of the running call of \<^verbatim>\<open>once\<close>;
  \<open>once\<close> saves and restores it around its own use.
\<close>

record state =
  svalue :: "sid \<Rightarrow> val"
  observersStack :: "observer list"
  dependencyMap :: "observer \<Rightarrow> dependency list option"
  observerMap :: "dependency \<Rightarrow> observer list option"
  effectQueue :: "observer list option"
  doNotTrack :: bool
  disallowWrites :: bool
  currentEffect :: "string option"
  reactionsDepthMap :: "rid \<Rightarrow> nat option"
  cvalue :: "cid \<Rightarrow> val"
  hasChanges :: "cid \<Rightarrow> bool"
  cerror :: "cid \<Rightarrow> err option"
  rvalue :: "rid \<Rightarrow> val"
  onceDisposer :: "rid \<Rightarrow> observer option"
  internalDisposerCalled :: bool
  nextObserver :: nat
  nextError :: nat
  trace :: "event list"

definition MAX_REACTION_DEPTH :: nat where
  "MAX_REACTION_DEPTH = 100"

text \<open>The state of a freshly loaded module in which signal \<open>x\<close> was created with value
  \<open>init x\<close> and no computed has been read yet.\<close>

definition initial :: "(sid \<Rightarrow> val) \<Rightarrow> state" where
  "initial init =
     \<lparr>svalue = init, observersStack = [], dependencyMap = (\<lambda>_. None),
      observerMap = (\<lambda>_. None), effectQueue = None, doNotTrack = False,
      disallowWrites = False, currentEffect = None, reactionsDepthMap = (\<lambda>_. None),
      cvalue = (\<lambda>_. Undefined), hasChanges = (\<lambda>_. True), cerror = (\<lambda>_. None),
      rvalue = (\<lambda>_. Undefined), onceDisposer = (\<lambda>_. None),
      internalDisposerCalled = False, nextObserver = 0, nextError = 0, trace = []\<rparr>"

section \<open>Results\<close>

text \<open>An operation returns \<open>None\<close> when the recursion bound given to it is used up, and
  otherwise what it returned (\<open>Inr\<close>) or threw (\<open>Inl\<close>), with the state it left.\<close>

type_synonym 'a result = "((err + 'a) \<times> state) option"

definition ok :: "'a \<Rightarrow> state \<Rightarrow> 'a result" where
  "ok x s = Some (Inr x, s)"

definition throw :: "err \<Rightarrow> state \<Rightarrow> 'a result" where
  "throw e s = Some (Inl e, s)"

text \<open>\<^verbatim>\<open>a; b\<close>: \<open>b\<close> runs on what \<open>a\<close> returned, unless \<open>a\<close> threw.\<close>

definition andThen :: "'a result \<Rightarrow> ('a \<Rightarrow> state \<Rightarrow> 'b result) \<Rightarrow> 'b result" where
  "andThen r f =
     (case r of None \<Rightarrow> None
      | Some (Inl e, s) \<Rightarrow> Some (Inl e, s)
      | Some (Inr x, s) \<Rightarrow> f x s)"

text \<open>\<^verbatim>\<open>try { a } catch (e) { h }\<close>.\<close>

definition catch :: "'a result \<Rightarrow> (err \<Rightarrow> state \<Rightarrow> 'a result) \<Rightarrow> 'a result" where
  "catch r h =
     (case r of None \<Rightarrow> None
      | Some (Inl e, s) \<Rightarrow> h e s
      | Some (Inr x, s) \<Rightarrow> Some (Inr x, s))"

text \<open>\<^verbatim>\<open>try { a } finally { f }\<close>: \<open>f\<close> runs in both cases; when \<open>f\<close> itself throws, that
  error replaces the outcome of \<open>a\<close>.\<close>

definition ensuring :: "'a result \<Rightarrow> (state \<Rightarrow> unit result) \<Rightarrow> 'a result" where
  "ensuring r f =
     (case r of None \<Rightarrow> None
      | Some (x, s) \<Rightarrow>
          (case f s of None \<Rightarrow> None
           | Some (Inl e, s') \<Rightarrow> Some (Inl e, s')
           | Some (Inr u, s') \<Rightarrow> Some (x, s')))"

text \<open>\<^verbatim>\<open>for (let x of xs) f(x)\<close>, over a list fixed before the loop starts.\<close>

fun forEach :: "('a \<Rightarrow> state \<Rightarrow> unit result) \<Rightarrow> 'a list \<Rightarrow> state \<Rightarrow> unit result" where
  "forEach f [] s = ok () s"
| "forEach f (x # xs) s = andThen (f x s) (\<lambda>u. forEach f xs)"

definition newError :: "err_class \<Rightarrow> string \<Rightarrow> bool \<Rightarrow> state \<Rightarrow> err" where
  "newError c msg marked s = \<lparr>ident = nextError s, cls = c, message = msg, statin_error = marked\<rparr>"

text \<open>\<^verbatim>\<open>throw new Error(msg)\<close>.\<close>

definition throwNew :: "err_class \<Rightarrow> string \<Rightarrow> bool \<Rightarrow> state \<Rightarrow> 'a result" where
  "throwNew c msg marked s = throw (newError c msg marked s) (s\<lparr>nextError := Suc (nextError s)\<rparr>)"

definition logged :: "event \<Rightarrow> state \<Rightarrow> state" where
  "logged ev s = s\<lparr>trace := trace s @ [ev]\<rparr>"

definition consoleError :: "err \<Rightarrow> state \<Rightarrow> unit result" where
  "consoleError e s = ok () (logged (ConsoleError e) s)"

section \<open>Dependency registry\<close>

definition setAdd :: "'a \<Rightarrow> 'a list \<Rightarrow> 'a list" where
  "setAdd x xs = (if x \<in> set xs then xs else xs @ [x])"

definition members :: "'a list option \<Rightarrow> 'a list" where
  "members m = (case m of None \<Rightarrow> [] | Some xs \<Rightarrow> xs)"

definition currentObserver :: "state \<Rightarrow> observer option" where
  "currentObserver s = (case observersStack s of [] \<Rightarrow> None | observer # rest \<Rightarrow> Some observer)"

definition registerDependency :: "dependency \<Rightarrow> state \<Rightarrow> state" where
  "registerDependency dependency s =
     (case currentObserver s of
        None \<Rightarrow> s
      | Some observer \<Rightarrow>
          if doNotTrack s then s
          else s\<lparr>observerMap := (observerMap s)
                    (dependency \<mapsto> setAdd observer (members (observerMap s dependency))),
                 dependencyMap := (dependencyMap s)
                    (observer \<mapsto> setAdd dependency (members (dependencyMap s observer)))\<rparr>)"

definition untrack :: "observer \<Rightarrow> dependency \<Rightarrow> (dependency \<Rightarrow> observer list option)
    \<Rightarrow> (dependency \<Rightarrow> observer list option)" where
  "untrack observer dependency m =
     (case m dependency of
        None \<Rightarrow> m
      | Some trackersSet \<Rightarrow>
          (if removeAll observer trackersSet = [] then m(dependency := None)
           else m(dependency \<mapsto> removeAll observer trackersSet)))"

definition clearDependencies :: "observer \<Rightarrow> state \<Rightarrow> state" where
  "clearDependencies observer s =
     (case dependencyMap s observer of
        None \<Rightarrow> s
      | Some dependencySet \<Rightarrow>
          s\<lparr>observerMap := fold (untrack observer) dependencySet (observerMap s),
            dependencyMap := (dependencyMap s)(observer := None)\<rparr>)"

text \<open>\<^verbatim>\<open>resumeTrackingWhile\<close>.\<close>

definition resumeTrackingWhile :: "(state \<Rightarrow> 'a result) \<Rightarrow> state \<Rightarrow> 'a result" where
  "resumeTrackingWhile fn s =
     ensuring (fn (s\<lparr>doNotTrack := False\<rparr>))
       (\<lambda>s'. ok () (s'\<lparr>doNotTrack := doNotTrack s\<rparr>))"

section \<open>Closures of the engine\<close>

text \<open>The disposer a user function got as its argument.\<close>

datatype disposer =
    NoDisposer \<comment> \<open>the function takes none\<close>
  | InternalDisposer \<comment> \<open>\<^verbatim>\<open>internalDisposer\<close> of the running \<^verbatim>\<open>once\<close>\<close>
  | ObserverDisposer observer \<comment> \<open>\<^verbatim>\<open>dispose\<close> of \<^verbatim>\<open>once\<close>\<close>
  | ReactionDisposer rid \<comment> \<open>\<^verbatim>\<open>dispose\<close> of \<^verbatim>\<open>reaction\<close>\<close>

fun callDisposer :: "disposer \<Rightarrow> state \<Rightarrow> state" where
  "callDisposer NoDisposer s = s"
| "callDisposer InternalDisposer s = s\<lparr>internalDisposerCalled := True\<rparr>"
| "callDisposer (ObserverDisposer observer) s = clearDependencies observer s"
| "callDisposer (ReactionDisposer r) s =
     (case onceDisposer s r of None \<Rightarrow> s | Some observer \<Rightarrow> clearDependencies observer s)"

text \<open>The first argument of \<^verbatim>\<open>bulkEffects\<close>.\<close>

datatype thunk =
    TriggerThunk sid \<comment> \<open>\<^verbatim>\<open>() => triggerObservers(getSet)\<close> of \<^verbatim>\<open>signal.changed\<close>\<close>
  | ActionThunk string prog \<comment> \<open>the function given to \<^verbatim>\<open>action\<close>\<close>
  | EffectThunk oid \<comment> \<open>the effect of a direct \<^verbatim>\<open>once\<close>\<close>
  | OnceEffectThunk rid \<comment> \<open>\<^verbatim>\<open>onceEffect\<close> of a reaction\<close>

text \<open>The \<^verbatim>\<open>onError\<close> option of \<^verbatim>\<open>bulkEffects\<close>.\<close>

datatype bulk_handler =
    NoOnError \<comment> \<open>none: the error goes to \<^verbatim>\<open>console.error\<close>\<close>
  | Rethrow \<comment> \<open>of \<^verbatim>\<open>action\<close>: throws the error again\<close>
  | OnceOnError observer \<comment> \<open>of the observer \<^verbatim>\<open>once\<close> makes\<close>

text \<open>The second argument of \<^verbatim>\<open>handleOrLog\<close>.\<close>

datatype handler =
    NoHandler
  | OnceHandler oid observer \<comment> \<open>\<^verbatim>\<open>(error) => onError(error, dispose)\<close> in \<^verbatim>\<open>once\<close>\<close>
  | LoopHandler rid observer \<comment> \<open>the same, for the \<^verbatim>\<open>onError\<close> of \<^verbatim>\<open>createOnceLoop\<close>\<close>
  | ReactionHandler rid \<comment> \<open>\<^verbatim>\<open>(error) => onError(error, dispose)\<close> in \<^verbatim>\<open>handleError\<close>\<close>

fun thunkName :: "env \<Rightarrow> thunk \<Rightarrow> string" where
  "thunkName E (TriggerThunk x) = ''Unknown''"
| "thunkName E (ActionThunk name fn) = name"
| "thunkName E (EffectThunk i) = onceEffectName (onces E i)"
| "thunkName E (OnceEffectThunk r) = effectName (reactions E r)"

fun ownerObserverName :: "env \<Rightarrow> owner \<Rightarrow> string" where
  "ownerObserverName E (UserOnce i) = observerName (onces E i)"
| "ownerObserverName E (ReactionOnce r) = actionName (reactions E r)"

fun ownerEffectName :: "env \<Rightarrow> owner \<Rightarrow> string" where
  "ownerEffectName E (UserOnce i) = onceEffectName (onces E i)"
| "ownerEffectName E (ReactionOnce r) = effectName (reactions E r)"

fun ownerEffect :: "owner \<Rightarrow> thunk" where
  "ownerEffect (UserOnce i) = EffectThunk i"
| "ownerEffect (ReactionOnce r) = OnceEffectThunk r"

text \<open>\<^verbatim>\<open>errorHandler\<close> of \<^verbatim>\<open>once\<close>.\<close>

fun errorHandler :: "env \<Rightarrow> nat \<Rightarrow> owner \<Rightarrow> handler" where
  "errorHandler E k (UserOnce i) =
     (case onceOnError (onces E i) of None \<Rightarrow> NoHandler
      | Some h \<Rightarrow> OnceHandler i (OnceObserver k (UserOnce i)))"
| "errorHandler E k (ReactionOnce r) = LoopHandler r (OnceObserver k (ReactionOnce r))"

text \<open>\<^verbatim>\<open>fnName\<close> of the function in \<^verbatim>\<open>currentEffect\<close>; the counter that numbers unnamed
  functions is left out.\<close>

definition fnName :: "string option \<Rightarrow> string" where
  "fnName fn = (case fn of None \<Rightarrow> ''Unknown'' | Some name \<Rightarrow> name)"

text \<open>What \<^verbatim>\<open>bulkEffects\<close> does before it calls \<^verbatim>\<open>effect\<close>: a call that finds no queue
  opens one and empties \<^verbatim>\<open>reactionsDepthMap\<close>; \<^verbatim>\<open>currentEffect\<close> becomes \<^verbatim>\<open>effect\<close>.\<close>

definition enterBulk :: "string \<Rightarrow> state \<Rightarrow> state" where
  "enterBulk name s =
     (if effectQueue s = None
      then s\<lparr>effectQueue := Some [], reactionsDepthMap := (\<lambda>r. None)\<rparr>
      else s)\<lparr>currentEffect := Some name\<rparr>"

section \<open>The engine\<close>

text \<open>
  The functions of the engine call each other and the user's closures, and nothing bounds
  how deep. They are defined together by recursion on a bound on the depth of the calls:
  \<open>bounded E n\<close> holds all of them for depth \<open>n\<close>, each one is written over the functions of
  depth one less (\<open>rec\<close>), and with no depth left every function returns \<open>None\<close>.
\<close>

record engine =
  exec_f :: "disposer \<Rightarrow> prog \<Rightarrow> state \<Rightarrow> val result"
  signal_set_f :: "sid \<Rightarrow> val \<Rightarrow> state \<Rightarrow> unit result"
  signal_changed_f :: "sid \<Rightarrow> state \<Rightarrow> unit result"
  signal_edit_f :: "sid \<Rightarrow> (val \<Rightarrow> prog) \<Rightarrow> state \<Rightarrow> unit result"
  triggerObservers_f :: "dependency \<Rightarrow> state \<Rightarrow> unit result"
  callObserver_f :: "observer \<Rightarrow> state \<Rightarrow> unit result"
  computed_get_f :: "cid \<Rightarrow> state \<Rightarrow> val result"
  bulkEffects_f :: "thunk \<Rightarrow> bulk_handler \<Rightarrow> state \<Rightarrow> val result"
  drainQueue_f :: "state \<Rightarrow> unit result"
  action_f :: "string \<Rightarrow> prog \<Rightarrow> state \<Rightarrow> val result"
  handleOrLog_f :: "err \<Rightarrow> handler \<Rightarrow> state \<Rightarrow> unit result"
  handleError_f :: "rid \<Rightarrow> err \<Rightarrow> state \<Rightarrow> unit result"
  effectWrap_f :: "rid \<Rightarrow> state \<Rightarrow> unit result"
  onceEffect_f :: "rid \<Rightarrow> state \<Rightarrow> val result"
  createOnceLoop_f :: "rid \<Rightarrow> state \<Rightarrow> unit result"
  once_f :: "owner \<Rightarrow> state \<Rightarrow> observer result"

text \<open>Running a user function, one command at a time.\<close>

fun exec_body :: "engine \<Rightarrow> disposer \<Rightarrow> prog \<Rightarrow> state \<Rightarrow> val result" where
  "exec_body rec d (Return v) s = ok v s"
| "exec_body rec d (Throw msg) s = throwNew PlainError msg False s"
| "exec_body rec d (Read x k) s =
     exec_f rec d (k (svalue s x)) (registerDependency (SignalDep x) s)"
| "exec_body rec d (Write x v p) s = andThen (signal_set_f rec x v s) (\<lambda>u. exec_f rec d p)"
| "exec_body rec d (Changed x p) s = andThen (signal_changed_f rec x s) (\<lambda>u. exec_f rec d p)"
| "exec_body rec d (Edit x editor p) s =
     andThen (signal_edit_f rec x editor s) (\<lambda>u. exec_f rec d p)"
| "exec_body rec d (ReadComputed c k) s =
     andThen (computed_get_f rec c s) (\<lambda>v. exec_f rec d (k v))"
| "exec_body rec d (CallDisposer p) s = exec_f rec d p (callDisposer d s)"
| "exec_body rec d (Action name fn k) s =
     andThen (action_f rec name fn s) (\<lambda>v. exec_f rec d (k v))"

text \<open>\<^verbatim>\<open>getSet.set\<close>, \<^verbatim>\<open>getSet.changed\<close> and \<^verbatim>\<open>getSet.edit\<close> of signal \<open>x\<close>.\<close>

definition signal_set_body :: "engine \<Rightarrow> sid \<Rightarrow> val \<Rightarrow> state \<Rightarrow> unit result" where
  "signal_set_body rec x v s =
     (if disallowWrites s
      then throwNew PlainError ''Writing to signals not allowed in this context.'' False s
      else if v \<noteq> svalue s x
      then signal_changed_f rec x (s\<lparr>svalue := (svalue s)(x := v)\<rparr>)
      else ok () s)"

definition signal_changed_body :: "engine \<Rightarrow> sid \<Rightarrow> state \<Rightarrow> unit result" where
  "signal_changed_body rec x s =
     (if effectQueue s = None
      then andThen (bulkEffects_f rec (TriggerThunk x) NoOnError s) (\<lambda>v. ok ())
      else triggerObservers_f rec (SignalDep x) s)"

definition signal_edit_body :: "engine \<Rightarrow> sid \<Rightarrow> (val \<Rightarrow> prog) \<Rightarrow> state \<Rightarrow> unit result" where
  "signal_edit_body rec x editor s =
     andThen (exec_f rec NoDisposer (editor (svalue s x)) (logged (Editing x (svalue s x)) s))
       (\<lambda>v. signal_changed_f rec x)"

text \<open>\<^verbatim>\<open>triggerObservers\<close>. \<^verbatim>\<open>currentObserver\<close> is read once, before the loop;
  \<^verbatim>\<open>effectQueue\<close> is read in every round.\<close>

definition triggerObservers_body :: "engine \<Rightarrow> dependency \<Rightarrow> state \<Rightarrow> unit result" where
  "triggerObservers_body rec dependency s =
     (case observerMap s dependency of
        None \<Rightarrow> ok () s
      | Some observersSet \<Rightarrow>
          forEach
            (\<lambda>observer s'.
               if Some observer = currentObserver s then ok () s'
               else if effectQueue s' \<noteq> None \<and> \<not> isComputed observer
               then ok () (s'\<lparr>effectQueue := Some (setAdd observer (members (effectQueue s')))\<rparr>)
               else callObserver_f rec observer s')
            observersSet s)"

text \<open>Calling an observer: \<^verbatim>\<open>computedObserver\<close> of a computed, or the \<^verbatim>\<open>observer\<close> a
  call of \<^verbatim>\<open>once\<close> made.\<close>

fun callObserver_body :: "engine \<Rightarrow> observer \<Rightarrow> state \<Rightarrow> unit result" where
  "callObserver_body rec (ComputedObserver c) s =
     triggerObservers_f rec (ObserverDep (ComputedObserver c))
       (clearDependencies (ComputedObserver c)
          ((logged (Invoked (ComputedObserver c)) s)
             \<lparr>cerror := (cerror s)(c := None), hasChanges := (hasChanges s)(c := True)\<rparr>))"
| "callObserver_body rec (OnceObserver k w) s =
     andThen
       (bulkEffects_f rec (ownerEffect w) (OnceOnError (OnceObserver k w))
          (clearDependencies (OnceObserver k w) (logged (Invoked (OnceObserver k w)) s)))
       (\<lambda>v. ok ())"

text \<open>\<^verbatim>\<open>get\<close> of a computed.\<close>

definition computed_get_body :: "env \<Rightarrow> engine \<Rightarrow> cid \<Rightarrow> state \<Rightarrow> val result" where
  "computed_get_body E rec c s =
     andThen
       (if hasChanges s c
        then
          ensuring
            (catch
               (resumeTrackingWhile
                  (\<lambda>s1. andThen
                     (exec_f rec NoDisposer (compute (computeds E c) (cvalue s1 c))
                        (logged (Computing c) s1))
                     (\<lambda>v s2. ok () (s2\<lparr>cvalue := (cvalue s2)(c := v)\<rparr>)))
                  ((registerDependency (ObserverDep (ComputedObserver c)) s)
                     \<lparr>observersStack := ComputedObserver c # observersStack s,
                      disallowWrites := True,
                      cerror := (cerror s)(c := None)\<rparr>))
               (\<lambda>thrown s2. ok ()
                  (s2\<lparr>cerror := (cerror s2)
                     (c \<mapsto> describeError thrown (computeName (computeds E c)))\<rparr>)))
            (\<lambda>s2. ok ()
               (s2\<lparr>disallowWrites := False, hasChanges := (hasChanges s2)(c := False),
                   observersStack := tl (observersStack s2)\<rparr>))
        else ok () (registerDependency (ObserverDep (ComputedObserver c)) s))
       (\<lambda>u s3. case cerror s3 c of Some error \<Rightarrow> throw error s3 | None \<Rightarrow> ok (cvalue s3 c) s3)"

text \<open>The call \<^verbatim>\<open>effect()\<close> in \<^verbatim>\<open>bulkEffects\<close>.\<close>

fun callThunk :: "env \<Rightarrow> engine \<Rightarrow> thunk \<Rightarrow> state \<Rightarrow> val result" where
  "callThunk E rec (TriggerThunk x) s =
     andThen (triggerObservers_f rec (SignalDep x) s) (\<lambda>u. ok Undefined)"
| "callThunk E rec (ActionThunk name fn) s = exec_f rec NoDisposer fn (logged (ActionBody name) s)"
| "callThunk E rec (EffectThunk i) s =
     exec_f rec NoDisposer (onceEffectFn (onces E i)) (logged (Effecting i) s)"
| "callThunk E rec (OnceEffectThunk r) s = onceEffect_f rec r s"

text \<open>The call \<^verbatim>\<open>onError(error)\<close> in \<^verbatim>\<open>bulkEffects\<close>, or \<^verbatim>\<open>console.error(error)\<close> when
  there is no \<^verbatim>\<open>onError\<close>. A computed observer never is the owner of one.\<close>

fun callOnError :: "env \<Rightarrow> engine \<Rightarrow> bulk_handler \<Rightarrow> err \<Rightarrow> state \<Rightarrow> unit result" where
  "callOnError E rec NoOnError error s = consoleError error s"
| "callOnError E rec Rethrow error s = throw error s"
| "callOnError E rec (OnceOnError (ComputedObserver c)) error s = ok () s"
| "callOnError E rec (OnceOnError (OnceObserver k w)) error s =
     handleOrLog_f rec (describeError error (ownerEffectName E w)) (errorHandler E k w) s"

text \<open>\<^verbatim>\<open>bulkEffects\<close>, and the loop in its \<^verbatim>\<open>finally\<close> block.\<close>

definition bulkEffects_body :: "env \<Rightarrow> engine \<Rightarrow> thunk \<Rightarrow> bulk_handler \<Rightarrow> state \<Rightarrow> val result" where
  "bulkEffects_body E rec effect onError s =
     ensuring
       (catch
          (callThunk E rec effect (enterBulk (thunkName E effect) s))
          (\<lambda>error s1.
             andThen (callOnError E rec onError (describeError error (fnName (currentEffect s1))) s1)
               (\<lambda>u. ok Undefined)))
       (\<lambda>s2. if effectQueue s = None
             then andThen (drainQueue_f rec s2)
                    (\<lambda>u s3. ok () (s3\<lparr>reactionsDepthMap := (\<lambda>r. None), effectQueue := None,
                                       currentEffect := currentEffect s\<rparr>))
             else ok () (s2\<lparr>currentEffect := currentEffect s\<rparr>))"

definition drainQueue_body :: "engine \<Rightarrow> state \<Rightarrow> unit result" where
  "drainQueue_body rec s =
     (if members (effectQueue s) = [] then ok () s
      else andThen
             (forEach (callObserver_f rec) (members (effectQueue s)) (s\<lparr>effectQueue := Some []\<rparr>))
             (\<lambda>u. drainQueue_f rec))"

text \<open>\<^verbatim>\<open>action\<close>.\<close>

definition action_body :: "engine \<Rightarrow> string \<Rightarrow> prog \<Rightarrow> state \<Rightarrow> val result" where
  "action_body rec name fn s =
     ensuring (bulkEffects_f rec (ActionThunk name fn) Rethrow (s\<lparr>doNotTrack := True\<rparr>))
       (\<lambda>s1. ok () (s1\<lparr>doNotTrack := doNotTrack s\<rparr>))"

text \<open>\<^verbatim>\<open>handleOrLog\<close>, for each function it is given as \<^verbatim>\<open>onError\<close>.\<close>

fun handleOrLog_body :: "env \<Rightarrow> engine \<Rightarrow> err \<Rightarrow> handler \<Rightarrow> state \<Rightarrow> unit result" where
  "handleOrLog_body E rec error NoHandler s = consoleError error s"
| "handleOrLog_body E rec error (OnceHandler i observer) s =
     (case onceOnError (onces E i) of
        None \<Rightarrow> consoleError error s
      | Some h \<Rightarrow>
          catch (andThen (exec_f rec (ObserverDisposer observer) (h error)
                            (logged (Handling error) s))
                   (\<lambda>v. ok ()))
            consoleError)"
| "handleOrLog_body E rec error (LoopHandler r observer) s =
     catch (handleError_f rec r error (s\<lparr>onceDisposer := (onceDisposer s)(r \<mapsto> observer)\<rparr>))
       consoleError"
| "handleOrLog_body E rec error (ReactionHandler r) s =
     (case reactionOnError (reactions E r) of
        None \<Rightarrow> consoleError error s
      | Some h \<Rightarrow>
          catch (andThen (exec_f rec (ReactionDisposer r) (h error) (logged (Handling error) s))
                   (\<lambda>v. ok ()))
            consoleError)"

text \<open>The closures of \<^verbatim>\<open>reaction\<close>: \<^verbatim>\<open>handleError\<close>, \<^verbatim>\<open>effectWrap\<close>, \<^verbatim>\<open>onceEffect\<close> and
  \<^verbatim>\<open>createOnceLoop\<close>.\<close>

definition handleError_body :: "env \<Rightarrow> engine \<Rightarrow> rid \<Rightarrow> err \<Rightarrow> state \<Rightarrow> unit result" where
  "handleError_body E rec r error s =
     handleOrLog_f rec error
       (case reactionOnError (reactions E r) of None \<Rightarrow> NoHandler | Some h \<Rightarrow> ReactionHandler r) s"

definition effectWrap_body :: "env \<Rightarrow> engine \<Rightarrow> rid \<Rightarrow> state \<Rightarrow> unit result" where
  "effectWrap_body E rec r s =
     (case reactionEffect (reactions E r) of
        None \<Rightarrow> ok () s
      | Some effect \<Rightarrow>
          catch (andThen (exec_f rec (ReactionDisposer r) (effect (rvalue s r))
                            (logged (Reacting r (rvalue s r)) s))
                   (\<lambda>v. ok ()))
            (\<lambda>error. handleError_f rec r (describeError error (effectName (reactions E r)))))"

definition stackSize :: "state \<Rightarrow> rid \<Rightarrow> nat" where
  "stackSize s r = (case reactionsDepthMap s r of None \<Rightarrow> 0 | Some k \<Rightarrow> k)"

text \<open>The message of the \<^verbatim>\<open>CircularReactionError\<close> of a reaction.\<close>

definition circularMessage :: "reaction_def \<Rightarrow> string" where
  "circularMessage R =
     ''Circular reaction in '' @ actionName R
       @ (if reactionEffect R = None then [] else ''->'' @ effectName R)
       @ '':'' @ [CHR 0x0A] @ ''---'' @ [CHR 0x0A]
       @ (if reactionEffect R = None then actionText R else effectText R)
       @ [CHR 0x0A] @ ''---''"

definition onceEffect_body :: "env \<Rightarrow> engine \<Rightarrow> rid \<Rightarrow> state \<Rightarrow> val result" where
  "onceEffect_body E rec r s =
     (if stackSize s r > MAX_REACTION_DEPTH
      then throwNew CircularReactionError (circularMessage (reactions E r)) True s
      else andThen
             (createOnceLoop_f rec r
                (s\<lparr>reactionsDepthMap := (reactionsDepthMap s)(r \<mapsto> stackSize s r + 1)\<rparr>))
             (\<lambda>u s1. andThen (effectWrap_f rec r s1) (\<lambda>u. ok Undefined)))"

definition createOnceLoop_body :: "engine \<Rightarrow> rid \<Rightarrow> state \<Rightarrow> unit result" where
  "createOnceLoop_body rec r s =
     andThen (once_f rec (ReactionOnce r) s)
       (\<lambda>observer s1. ok () (s1\<lparr>onceDisposer := (onceDisposer s1)(r \<mapsto> observer)\<rparr>))"

text \<open>The call \<^verbatim>\<open>observe(internalDisposer)\<close> in \<^verbatim>\<open>once\<close>; for a reaction \<^verbatim>\<open>observe\<close> is
  \<^verbatim>\<open>actionWrap\<close>, which stores what the action returned.\<close>

fun callObserve :: "env \<Rightarrow> engine \<Rightarrow> owner \<Rightarrow> state \<Rightarrow> unit result" where
  "callObserve E rec (UserOnce i) s =
     andThen (exec_f rec InternalDisposer (observe (onces E i)) (logged (Observing i) s))
       (\<lambda>v. ok ())"
| "callObserve E rec (ReactionOnce r) s =
     andThen (exec_f rec InternalDisposer (reactionAction (reactions E r)) (logged (Acting r) s))
       (\<lambda>v s1. ok () (s1\<lparr>rvalue := (rvalue s1)(r := v)\<rparr>))"

text \<open>\<^verbatim>\<open>once\<close>. The result is the new observer, which stands for the disposer returned.\<close>

definition once_body :: "env \<Rightarrow> engine \<Rightarrow> owner \<Rightarrow> state \<Rightarrow> observer result" where
  "once_body E rec w s =
     andThen
       (ensuring
          (catch
             (andThen
                (resumeTrackingWhile (callObserve E rec w)
                   (s\<lparr>nextObserver := Suc (nextObserver s),
                      observersStack := OnceObserver (nextObserver s) w # observersStack s,
                      internalDisposerCalled := False\<rparr>))
                (\<lambda>u s1. ok ()
                   (if internalDisposerCalled s1
                    then clearDependencies (OnceObserver (nextObserver s) w) s1 else s1)))
             (\<lambda>error. handleOrLog_f rec (describeError error (ownerObserverName E w))
                (errorHandler E (nextObserver s) w)))
          (\<lambda>s1. ok () (s1\<lparr>observersStack := tl (observersStack s1),
                            internalDisposerCalled := internalDisposerCalled s\<rparr>)))
       (\<lambda>u. ok (OnceObserver (nextObserver s) w))"

primrec bounded :: "env \<Rightarrow> nat \<Rightarrow> engine" where
  "bounded E 0 =
     \<lparr>exec_f = (\<lambda>d p s. None), signal_set_f = (\<lambda>x v s. None), signal_changed_f = (\<lambda>x s. None),
      signal_edit_f = (\<lambda>x editor s. None), triggerObservers_f = (\<lambda>dependency s. None),
      callObserver_f = (\<lambda>observer s. None), computed_get_f = (\<lambda>c s. None),
      bulkEffects_f = (\<lambda>effect onError s. None), drainQueue_f = (\<lambda>s. None),
      action_f = (\<lambda>name fn s. None), handleOrLog_f = (\<lambda>error onError s. None),
      handleError_f = (\<lambda>r error s. None), effectWrap_f = (\<lambda>r s. None),
      onceEffect_f = (\<lambda>r s. None), createOnceLoop_f = (\<lambda>r s. None), once_f = (\<lambda>w s. None)\<rparr>"
| "bounded E (Suc n) =
     (let rec = bounded E n in
      \<lparr>exec_f = exec_body rec,
       signal_set_f = signal_set_body rec,
       signal_changed_f = signal_changed_body rec,
       signal_edit_f = signal_edit_body rec,
       triggerObservers_f = triggerObservers_body rec,
       callObserver_f = callObserver_body rec,
       computed_get_f = computed_get_body E rec,
       bulkEffects_f = bulkEffects_body E rec,
       drainQueue_f = drainQueue_body rec,
       action_f = action_body rec,
       handleOrLog_f = handleOrLog_body E rec,
       handleError_f = handleError_body E rec,
       effectWrap_f = effectWrap_body E rec,
       onceEffect_f = onceEffect_body E rec,
       createOnceLoop_f = createOnceLoop_body rec,
       once_f = once_body E rec\<rparr>)"

text \<open>The operations of the library, at depth \<open>n\<close>.\<close>

definition exec :: "env \<Rightarrow> nat \<Rightarrow> disposer \<Rightarrow> prog \<Rightarrow> state \<Rightarrow> val result" where
  "exec E n = exec_f (bounded E n)"

definition signal_set :: "env \<Rightarrow> nat \<Rightarrow> sid \<Rightarrow> val \<Rightarrow> state \<Rightarrow> unit result" where
  "signal_set E n = signal_set_f (bounded E n)"

definition signal_changed :: "env \<Rightarrow> nat \<Rightarrow> sid \<Rightarrow> state \<Rightarrow> unit result" where
  "signal_changed E n = signal_changed_f (bounded E n)"

definition signal_edit :: "env \<Rightarrow> nat \<Rightarrow> sid \<Rightarrow> (val \<Rightarrow> prog) \<Rightarrow> state \<Rightarrow> unit result" where
  "signal_edit E n = signal_edit_f (bounded E n)"

definition triggerObservers :: "env \<Rightarrow> nat \<Rightarrow> dependency \<Rightarrow> state \<Rightarrow> unit result" where
  "triggerObservers E n = triggerObservers_f (bounded E n)"

definition callObserver :: "env \<Rightarrow> nat \<Rightarrow> observer \<Rightarrow> state \<Rightarrow> unit result" where
  "callObserver E n = callObserver_f (bounded E n)"

definition computed_get :: "env \<Rightarrow> nat \<Rightarrow> cid \<Rightarrow> state \<Rightarrow> val result" where
  "computed_get E n = computed_get_f (bounded E n)"

definition bulkEffects :: "env \<Rightarrow> nat \<Rightarrow> thunk \<Rightarrow> bulk_handler \<Rightarrow> state \<Rightarrow> val result" where
  "bulkEffects E n = bulkEffects_f (bounded E n)"

definition drainQueue :: "env \<Rightarrow> nat \<Rightarrow> state \<Rightarrow> unit result" where
  "drainQueue E n = drainQueue_f (bounded E n)"

definition action :: "env \<Rightarrow> nat \<Rightarrow> string \<Rightarrow> prog \<Rightarrow> state \<Rightarrow> val result" where
  "action E n = action_f (bounded E n)"

definition once :: "env \<Rightarrow> nat \<Rightarrow> owner \<Rightarrow> state \<Rightarrow> observer result" where
  "once E n = once_f (bounded E n)"

definition handleOrLog :: "env \<Rightarrow> nat \<Rightarrow> err \<Rightarrow> handler \<Rightarrow> state \<Rightarrow> unit result" where
  "handleOrLog E n = handleOrLog_f (bounded E n)"

definition handleError :: "env \<Rightarrow> nat \<Rightarrow> rid \<Rightarrow> err \<Rightarrow> state \<Rightarrow> unit result" where
  "handleError E n = handleError_f (bounded E n)"

definition effectWrap :: "env \<Rightarrow> nat \<Rightarrow> rid \<Rightarrow> state \<Rightarrow> unit result" where
  "effectWrap E n = effectWrap_f (bounded E n)"

definition onceEffect :: "env \<Rightarrow> nat \<Rightarrow> rid \<Rightarrow> state \<Rightarrow> val result" where
  "onceEffect E n = onceEffect_f (bounded E n)"

definition createOnceLoop :: "env \<Rightarrow> nat \<Rightarrow> rid \<Rightarrow> state \<Rightarrow> unit result" where
  "createOnceLoop E n = createOnceLoop_f (bounded E n)"

text \<open>\<^verbatim>\<open>reaction\<close>: start the chain, call the effect when \<^verbatim>\<open>immediate\<close> is set. Its
  disposer is \<open>callDisposer (ReactionDisposer r)\<close>.\<close>

definition reaction :: "env \<Rightarrow> nat \<Rightarrow> rid \<Rightarrow> state \<Rightarrow> unit result" where
  "reaction E n r s =
     andThen (createOnceLoop E n r s)
       (\<lambda>u s1. if immediate (reactions E r) then effectWrap E n r s1 else ok () s1)"

section \<open>Outcomes\<close>

text \<open>\<open>returns r P\<close>: the call returned within the bound, and \<open>P\<close> holds of what it
  returned and of the state it left. \<open>throws r P\<close>: it threw, and \<open>P\<close> holds of the
  error and of the state.\<close>

definition returns :: "'a result \<Rightarrow> ('a \<Rightarrow> state \<Rightarrow> bool) \<Rightarrow> bool" where
  "returns r P = (case r of Some (Inr x, s) \<Rightarrow> P x s | Some (Inl e, s) \<Rightarrow> False | None \<Rightarrow> False)"

definition throws :: "'a result \<Rightarrow> (err \<Rightarrow> state \<Rightarrow> bool) \<Rightarrow> bool" where
  "throws r P = (case r of Some (Inl e, s) \<Rightarrow> P e s | Some (Inr x, s) \<Rightarrow> False | None \<Rightarrow> False)"

text \<open>\<open>quiet r\<close>: the call did not throw.\<close>

definition quiet :: "'a result \<Rightarrow> bool" where
  "quiet r = (case r of Some (Inl e, s) \<Rightarrow> False | Some (Inr x, s) \<Rightarrow> True | None \<Rightarrow> True)"

section \<open>Programs of the examples\<close>

text \<open>An environment in which nothing was created; the examples override what they use.\<close>

definition noComputed :: computed_def where
  "noComputed = \<lparr>computeName = ''Computed'', compute = (\<lambda>prev. Return Undefined)\<rparr>"

definition noReaction :: reaction_def where
  "noReaction =
     \<lparr>actionName = ''Reaction'', actionText = ''() => {}'', reactionAction = Return Undefined,
      effectName = ''ReactionEffect'', effectText = [], reactionEffect = None,
      reactionOnError = None, immediate = False\<rparr>"

definition noOnce :: once_def where
  "noOnce =
     \<lparr>observerName = ''OnceObserver'', observe = Return Undefined,
      onceEffectName = ''OnceEffect'', onceEffectFn = Return Undefined, onceOnError = None\<rparr>"

definition noEnv :: env where
  "noEnv = \<lparr>computeds = (\<lambda>c. noComputed), reactions = (\<lambda>r. noReaction), onces = (\<lambda>i. noOnce)\<rparr>"

text \<open>
  The diamond: signal \<open>0\<close> is \<^verbatim>\<open>A\<close>, computed \<open>0\<close> is \<^verbatim>\<open>B = computed(() => f(A()))\<close>,
  computed \<open>1\<close> is \<^verbatim>\<open>C = computed(() => g(A()))\<close>, and reaction \<open>0\<close> is
  \<^verbatim>\<open>reaction(() => { A(); B(); C(); })\<close>.
\<close>

definition diamond :: "(val \<Rightarrow> val) \<Rightarrow> (val \<Rightarrow> val) \<Rightarrow> env" where
  "diamond f g =
     noEnv\<lparr>computeds := (\<lambda>c. if c = 0
                then \<lparr>computeName = ''B'', compute = (\<lambda>prev. Read 0 (\<lambda>a. Return (f a)))\<rparr>
                else \<lparr>computeName = ''C'', compute = (\<lambda>prev. Read 0 (\<lambda>a. Return (g a)))\<rparr>),
           reactions := (\<lambda>r. noReaction
             \<lparr>reactionAction :=
                Read 0 (\<lambda>a. ReadComputed 0 (\<lambda>b. ReadComputed 1 (\<lambda>c. Return Undefined)))\<rparr>)\<rparr>"

text \<open>\<open>k\<close> calls of the same operation one after the other, the caller going on whether a
  call returned or threw; the result is the state after the last one.\<close>

fun repeatedly :: "nat \<Rightarrow> (state \<Rightarrow> 'a result) \<Rightarrow> state \<Rightarrow> state option" where
  "repeatedly 0 f s = Some s"
| "repeatedly (Suc k) f s = (case f s of None \<Rightarrow> None | Some (r, s') \<Rightarrow> repeatedly k f s')"

text \<open>
  Delivering a notification to one observer, in the words of the specification of
  \<^verbatim>\<open>notify\<close>: the observer is invoked synchronously, unless a batch is open and the
  observer is not the internal observer of a computed, in which case it is put in the
  queue.
\<close>

definition deliver :: "env \<Rightarrow> nat \<Rightarrow> observer \<Rightarrow> state \<Rightarrow> unit result" where
  "deliver E n observer s =
     (if effectQueue s \<noteq> None \<and> \<not> isComputed observer
      then ok () (s\<lparr>effectQueue := Some (setAdd observer (members (effectQueue s)))\<rparr>)
      else callObserver E n observer s)"

text \<open>
  Signal \<open>0\<close> holds a number. Computed \<open>1\<close> is \<^verbatim>\<open>inner = computed(() => 1)\<close>, computed \<open>0\<close>
  is \<^verbatim>\<open>outer = computed(() => { const v = inner(); s(2); return v; })\<close>, and computed \<open>2\<close>
  is \<^verbatim>\<open>direct = computed(() => { s(2); return 0; })\<close>.
\<close>

definition nestedWrite :: env where
  "nestedWrite =
     noEnv\<lparr>computeds := (\<lambda>c.
        if c = 0 then \<lparr>computeName = ''outer'',
                        compute = (\<lambda>prev. ReadComputed 1 (\<lambda>v. Write 0 (Num 2) (Return v)))\<rparr>
        else if c = 1 then \<lparr>computeName = ''inner'', compute = (\<lambda>prev. Return (Num 1))\<rparr>
        else \<lparr>computeName = ''direct'',
               compute = (\<lambda>prev. Write 0 (Num 2) (Return (Num 0)))\<rparr>)\<rparr>"

text \<open>Reaction \<open>0\<close> is \<^verbatim>\<open>reaction(() => { a(); a(v); })\<close> on signal \<open>0\<close>.\<close>

definition selfWriting :: "val \<Rightarrow> env" where
  "selfWriting v =
     noEnv\<lparr>reactions := (\<lambda>r. noReaction
        \<lparr>reactionAction := Read 0 (\<lambda>a. Write 0 v (Return Undefined))\<rparr>)\<rparr>"

text \<open>The state a call left, for a call that is known to have come back.\<close>

definition the_state :: "'a result \<Rightarrow> state" where
  "the_state r = (case r of Some (x, s) \<Rightarrow> s | None \<Rightarrow> initial (\<lambda>x. Undefined))"


text \<open>\<^verbatim>\<open>once(() => s(), effect)\<close> is direct once \<open>0\<close>; computed \<open>0\<close> is
  \<^verbatim>\<open>computed(() => { s.edit(editor); s.changed(); return 7; })\<close>, computed \<open>1\<close> is
  \<^verbatim>\<open>computed(() => { s(5); return 7; })\<close>.\<close>

definition editing :: env where
  "editing =
     noEnv\<lparr>computeds := (\<lambda>c.
        if c = 0 then \<lparr>computeName = ''edits'',
                        compute = (\<lambda>prev. Edit 0 (\<lambda>v. Return v) (Changed 0 (Return (Num 7))))\<rparr>
        else \<lparr>computeName = ''writes'',
               compute = (\<lambda>prev. Write 0 (Num 5) (Return (Num 7)))\<rparr>),
       onces := (\<lambda>i. noOnce\<lparr>observe := Read 0 (\<lambda>v. Return Undefined)\<rparr>)\<rparr>"




text \<open>\<^verbatim>\<open>v + 1\<close> on a number.\<close>

fun inc :: "val \<Rightarrow> val" where
  "inc (Num i) = Num (i + 1)"
| "inc Undefined = Undefined"

text \<open>
  Reaction \<open>0\<close> is \<^verbatim>\<open>reaction(myAction, myEffect, {onError})\<close> with
  \<^verbatim>\<open>myAction = () => count()\<close> and \<^verbatim>\<open>myEffect = (c) => count(c + 1)\<close> on signal \<open>0\<close>, and an
  \<^verbatim>\<open>onError\<close> that only takes the error.
\<close>

definition circular :: env where
  "circular =
     noEnv\<lparr>reactions := (\<lambda>r.
        \<lparr>actionName = ''myAction'', actionText = ''() => count()'',
         reactionAction = Read 0 (\<lambda>c. Return c),
         effectName = ''myEffect'', effectText = ''(c) => count(c + 1)'',
         reactionEffect = Some (\<lambda>c. Write 0 (inc c) (Return Undefined)),
         reactionOnError = Some (\<lambda>error. Return Undefined), immediate = False\<rparr>)\<rparr>"

text \<open>
  The family of that reaction: reaction \<open>0\<close> is
  \<^verbatim>\<open>reaction(() => count(), (c) => { const v = step(c); if (v !== none) count(v) }, options)\<close>
  on signal \<open>0\<close>, with the names and source texts of \<open>D\<close>, and with an \<^verbatim>\<open>onError\<close> that
  only takes the error when \<open>handled\<close> is set, and none otherwise.
\<close>

definition feeding :: "reaction_def \<Rightarrow> (val \<Rightarrow> val option) \<Rightarrow> bool \<Rightarrow> env" where
  "feeding D step handled =
     noEnv\<lparr>reactions := (\<lambda>r.
        D\<lparr>reactionAction := Read 0 (\<lambda>c. Return c),
          reactionEffect := Some (\<lambda>c. case step c of
                                           None \<Rightarrow> Return Undefined
                                         | Some v \<Rightarrow> Write 0 v (Return Undefined)),
          reactionOnError := (if handled then Some (\<lambda>error. Return Undefined) else None),
          immediate := False\<rparr>)\<rparr>"

text \<open>The names and texts of \<open>circular\<close>, its \<open>step\<close>, and one that stops at every
  multiple of \<open>60\<close>: \<^verbatim>\<open>(c) => { if (c % 60 !== 0) count(c + 1) }\<close>.\<close>

definition circularNames :: reaction_def where
  "circularNames =
     noReaction\<lparr>actionName := ''myAction'', actionText := ''() => count()'',
        effectName := ''myEffect'', effectText := ''(c) => count(c + 1)''\<rparr>"

definition always :: "val \<Rightarrow> val option" where
  "always c = Some (inc c)"

fun pausing :: "val \<Rightarrow> val option" where
  "pausing (Num i) = (if i mod 60 = 0 then None else Some (Num (i + 1)))"
| "pausing Undefined = None"

text \<open>
  The value the signal holds after a firing whose action read \<open>c\<close>; \<open>chain step c m\<close>
  says that from \<open>c\<close> on the effect writes a new value \<open>m\<close> times in a row, and
  \<open>orbit step c m\<close> is the value after \<open>m\<close> firings.
\<close>

definition advance :: "(val \<Rightarrow> val option) \<Rightarrow> val \<Rightarrow> val" where
  "advance step c = (case step c of None \<Rightarrow> c | Some v \<Rightarrow> v)"

fun chain :: "(val \<Rightarrow> val option) \<Rightarrow> val \<Rightarrow> nat \<Rightarrow> bool" where
  "chain step c 0 = True"
| "chain step c (Suc m) = (advance step c \<noteq> c \<and> chain step (advance step c) m)"

fun orbit :: "(val \<Rightarrow> val option) \<Rightarrow> val \<Rightarrow> nat \<Rightarrow> val" where
  "orbit step c 0 = c"
| "orbit step c (Suc m) = orbit step (advance step c) m"

text \<open>What the action returned at the last of \<open>m\<close> firings from \<open>c\<close> on, \<open>rv\<close> when
  there was none.\<close>

fun lastRead :: "(val \<Rightarrow> val option) \<Rightarrow> val \<Rightarrow> val \<Rightarrow> nat \<Rightarrow> val" where
  "lastRead step rv c 0 = rv"
| "lastRead step rv c (Suc m) = lastRead step c (advance step c) m"

text \<open>What a firing of that reaction adds to the log: observer \<open>j\<close> is invoked, the action
  runs again, and the effect is called with the value \<open>c\<close> the action read.
  \<open>firings step j c m\<close> are \<open>m\<close> firings in a row, from observer \<open>j\<close> and value \<open>c\<close> on.\<close>

definition observerNo :: "nat \<Rightarrow> observer" where
  "observerNo k = OnceObserver k (ReactionOnce 0)"

definition firing :: "nat \<Rightarrow> val \<Rightarrow> event list" where
  "firing j c = [Invoked (observerNo j), Acting 0, Reacting 0 c]"

fun firings :: "(val \<Rightarrow> val option) \<Rightarrow> nat \<Rightarrow> val \<Rightarrow> nat \<Rightarrow> event list" where
  "firings step j c 0 = []"
| "firings step j c (Suc m) = firing j c @ firings step (Suc j) (advance step c) m"

text \<open>The \<^verbatim>\<open>CircularReactionError\<close> of a reaction with the names and texts of \<open>D\<close> that has
  an effect, when it is the first error object made; and where it goes.\<close>

definition circularError :: "reaction_def \<Rightarrow> err" where
  "circularError D =
     \<lparr>ident = 0, cls = CircularReactionError,
      message = ''Circular reaction in '' @ actionName D @ ''->'' @ effectName D
                  @ '':'' @ [CHR 0x0A] @ ''---'' @ [CHR 0x0A] @ effectText D
                  @ [CHR 0x0A] @ ''---'',
      statin_error = True\<rparr>"

definition reported :: "bool \<Rightarrow> err \<Rightarrow> event" where
  "reported handled error = (if handled then Handling error else ConsoleError error)"

text \<open>
  The states of a run of that reaction alone, on signals created with the values \<open>init\<close>.
  \<open>waiting init j c rv tr\<close>: no batch is open, the reaction is subscribed to the signal
  with observer \<open>j\<close>, the signal holds \<open>c\<close>, the action last returned \<open>rv\<close> and the log is
  \<open>tr\<close>. \<open>round init name k j c rv tr q\<close>: the same inside the batch of \<^verbatim>\<open>action(name)\<close>
  when the reaction has fired \<open>k\<close> times in it, with queue \<open>q\<close>. \<open>stopped\<close>: after the
  firing that raised the error. \<open>closed s\<close> is \<open>s\<close> after the outermost batch has ended.
\<close>

definition waiting :: "(sid \<Rightarrow> val) \<Rightarrow> nat \<Rightarrow> val \<Rightarrow> val \<Rightarrow> event list \<Rightarrow> state" where
  "waiting init j c rv tr =
     \<lparr>svalue = init(0 := c), observersStack = [],
      dependencyMap = [observerNo j \<mapsto> [SignalDep 0]],
      observerMap = [SignalDep 0 \<mapsto> [observerNo j]],
      effectQueue = None, doNotTrack = False,
      disallowWrites = False, currentEffect = None,
      reactionsDepthMap = (\<lambda>r. None),
      cvalue = (\<lambda>c. Undefined), hasChanges = (\<lambda>c. True), cerror = (\<lambda>c. None),
      rvalue = (\<lambda>r. Undefined)(0 := rv), onceDisposer = [0 \<mapsto> observerNo j],
      internalDisposerCalled = False, nextObserver = Suc j, nextError = 0, trace = tr\<rparr>"

definition depthAfter :: "nat \<Rightarrow> rid \<Rightarrow> nat option" where
  "depthAfter k = (if k = 0 then (\<lambda>r. None) else [0 \<mapsto> k])"

definition round ::
  "(sid \<Rightarrow> val) \<Rightarrow> string \<Rightarrow> nat \<Rightarrow> nat \<Rightarrow> val \<Rightarrow> val \<Rightarrow> event list \<Rightarrow> observer list \<Rightarrow> state" where
  "round init name k j c rv tr q =
     (waiting init j c rv tr)
       \<lparr>effectQueue := Some q, doNotTrack := True, currentEffect := Some name,
        reactionsDepthMap := depthAfter k\<rparr>"

definition stopped ::
  "(sid \<Rightarrow> val) \<Rightarrow> string \<Rightarrow> nat \<Rightarrow> val \<Rightarrow> val \<Rightarrow> event list \<Rightarrow> state" where
  "stopped init name j c rv tr =
     (round init name 101 j c rv tr [])
       \<lparr>dependencyMap := (\<lambda>observer. None), observerMap := (\<lambda>dependency. None),
        nextError := 1\<rparr>"

definition closed :: "state \<Rightarrow> state" where
  "closed s =
     s\<lparr>reactionsDepthMap := (\<lambda>r. None), effectQueue := None, currentEffect := None,
       doNotTrack := False\<rparr>"

fun isReacting :: "event \<Rightarrow> bool" where
  "isReacting (Reacting r v) = True"
| "isReacting ev = False"


text \<open>
  On signals \<open>0\<close> (\<^verbatim>\<open>a\<close>) and \<open>1\<close> (\<^verbatim>\<open>b\<close>): direct once \<open>0\<close> is
  \<^verbatim>\<open>once(() => a(), () => b(5))\<close>, direct once \<open>1\<close> is
  \<^verbatim>\<open>once(() => { a(); b(); }, effect)\<close>, and direct once \<open>2\<close> is
  \<^verbatim>\<open>once((dispose) => { a(); dispose(); b(); }, effect)\<close>.
\<close>

definition cascade :: env where
  "cascade =
     noEnv\<lparr>onces := (\<lambda>i.
        if i = 0
        then noOnce\<lparr>observe := Read 0 (\<lambda>v. Return Undefined),
                    onceEffectFn := Write 1 (Num 5) (Return Undefined)\<rparr>
        else if i = 1
        then noOnce\<lparr>observe := Read 0 (\<lambda>v. Read 1 (\<lambda>w. Return Undefined))\<rparr>
        else noOnce\<lparr>observe := Read 0 (\<lambda>v. CallDisposer (Read 1 (\<lambda>w. Return Undefined)))\<rparr>)\<rparr>"


text \<open>The events logged after state \<open>s\<close> up to state \<open>s'\<close>.\<close>

definition since :: "state \<Rightarrow> state \<Rightarrow> event list" where
  "since s s' = drop (length (trace s)) (trace s')"







text \<open>A computed is dirty when it is marked as changed and holds no error.\<close>

definition dirty :: "cid \<Rightarrow> state \<Rightarrow> bool" where
  "dirty c s = (hasChanges s c \<and> cerror s c = None)"

text \<open>
  \<open>steady c s s'\<close> relates a state to a later one: the log has only grown; a computed that
  was dirty is still dirty, unless its compute function was called in between; and the cache
  of a computed that was not marked as changed is what it was, unless the observer of the
  computed was called in between.
\<close>

definition steady :: "cid \<Rightarrow> state \<Rightarrow> state \<Rightarrow> bool" where
  "steady c s s' =
     (prefix (trace s) (trace s') \<and>
      (dirty c s \<longrightarrow> dirty c s' \<or> Computing c \<in> set (since s s')) \<and>
      (\<not> hasChanges s c \<longrightarrow>
         (\<not> hasChanges s' c \<and> cerror s' c = cerror s c \<and> cvalue s' c = cvalue s c)
         \<or> Invoked (ComputedObserver c) \<in> set (since s s')))"

text \<open>The state in which \<^verbatim>\<open>get\<close> of computed \<open>c\<close>, called in \<open>s\<close> with \<open>c\<close> marked as
  changed, calls the compute function; \<open>ran E n c s\<close> is the state that call leaves.\<close>

definition evaluating :: "cid \<Rightarrow> state \<Rightarrow> state" where
  "evaluating c s =
     logged (Computing c)
       ((registerDependency (ObserverDep (ComputedObserver c)) s)
          \<lparr>observersStack := ComputedObserver c # observersStack s,
           disallowWrites := True, cerror := (cerror s)(c := None), doNotTrack := False\<rparr>)"




text \<open>\<open>afterInvoked c tr\<close> is \<open>tr\<close> from the first call of the observer of \<open>c\<close> on.
  \<open>invalidated c t t'\<close>: between \<open>t\<close> and \<open>t'\<close> the observer of \<open>c\<close> was called, and at \<open>t'\<close>
  the computed is dirty or has been evaluated since that call.\<close>

definition afterInvoked :: "cid \<Rightarrow> event list \<Rightarrow> event list" where
  "afterInvoked c tr = dropWhile (\<lambda>ev. ev \<noteq> Invoked (ComputedObserver c)) tr"

definition invalidated :: "cid \<Rightarrow> state \<Rightarrow> state \<Rightarrow> bool" where
  "invalidated c t t' =
     (prefix (trace t) (trace t') \<and> Invoked (ComputedObserver c) \<in> set (since t t') \<and>
      (dirty c t' \<or> Computing c \<in> set (afterInvoked c (since t t'))))"







text \<open>\<open>le r r'\<close>: the call that gave \<open>r\<close> either ran out of depth or gave what \<open>r'\<close> is;
  \<open>engine_le\<close> says so of every function of two engines.\<close>

definition le :: "'a result \<Rightarrow> 'a result \<Rightarrow> bool" where
  "le r r' = (r = None \<or> r = r')"

definition engine_le :: "engine \<Rightarrow> engine \<Rightarrow> bool" where
  "engine_le rec rec' =
     ((\<forall>d p s. le (exec_f rec d p s) (exec_f rec' d p s)) \<and>
      (\<forall>x v s. le (signal_set_f rec x v s) (signal_set_f rec' x v s)) \<and>
      (\<forall>x s. le (signal_changed_f rec x s) (signal_changed_f rec' x s)) \<and>
      (\<forall>x editor s. le (signal_edit_f rec x editor s) (signal_edit_f rec' x editor s)) \<and>
      (\<forall>d s. le (triggerObservers_f rec d s) (triggerObservers_f rec' d s)) \<and>
      (\<forall>obs s. le (callObserver_f rec obs s) (callObserver_f rec' obs s)) \<and>
      (\<forall>c s. le (computed_get_f rec c s) (computed_get_f rec' c s)) \<and>
      (\<forall>effect onError s. le (bulkEffects_f rec effect onError s)
                               (bulkEffects_f rec' effect onError s)) \<and>
      (\<forall>s. le (drainQueue_f rec s) (drainQueue_f rec' s)) \<and>
      (\<forall>name fn s. le (action_f rec name fn s) (action_f rec' name fn s)) \<and>
      (\<forall>e h s. le (handleOrLog_f rec e h s) (handleOrLog_f rec' e h s)) \<and>
      (\<forall>r e s. le (handleError_f rec r e s) (handleError_f rec' r e s)) \<and>
      (\<forall>r s. le (effectWrap_f rec r s) (effectWrap_f rec' r s)) \<and>
      (\<forall>r s. le (onceEffect_f rec r s) (onceEffect_f rec' r s)) \<and>
      (\<forall>r s. le (createOnceLoop_f rec r s) (createOnceLoop_f rec' r s)) \<and>
      (\<forall>w s. le (once_f rec w s) (once_f rec' w s)))"

section \<open>Unfolding one level of depth\<close>

lemmas fold_engine =
  exec_def [symmetric]
  signal_set_def [symmetric]
  signal_changed_def [symmetric]
  signal_edit_def [symmetric]
  triggerObservers_def [symmetric]
  callObserver_def [symmetric]
  computed_get_def [symmetric]
  bulkEffects_def [symmetric]
  drainQueue_def [symmetric]
  action_def [symmetric]
  handleOrLog_def [symmetric]
  handleError_def [symmetric]
  effectWrap_def [symmetric]
  onceEffect_def [symmetric]
  createOnceLoop_def [symmetric]
  once_def [symmetric]

lemma exec_0: "exec E 0 = (\<lambda>d p s. None)"
  by (simp add: exec_def)

lemma exec_Suc: "exec E (Suc n) = exec_body (bounded E n)"
  by (simp add: exec_def Let_def)

lemma signal_set_0: "signal_set E 0 = (\<lambda>x v s. None)"
  by (simp add: signal_set_def)

lemma signal_set_Suc: "signal_set E (Suc n) = signal_set_body (bounded E n)"
  by (simp add: signal_set_def Let_def)

lemma signal_changed_0: "signal_changed E 0 = (\<lambda>x s. None)"
  by (simp add: signal_changed_def)

lemma signal_changed_Suc: "signal_changed E (Suc n) = signal_changed_body (bounded E n)"
  by (simp add: signal_changed_def Let_def)

lemma signal_edit_0: "signal_edit E 0 = (\<lambda>x editor s. None)"
  by (simp add: signal_edit_def)

lemma signal_edit_Suc: "signal_edit E (Suc n) = signal_edit_body (bounded E n)"
  by (simp add: signal_edit_def Let_def)

lemma triggerObservers_0: "triggerObservers E 0 = (\<lambda>dependency s. None)"
  by (simp add: triggerObservers_def)

lemma triggerObservers_Suc: "triggerObservers E (Suc n) = triggerObservers_body (bounded E n)"
  by (simp add: triggerObservers_def Let_def)

lemma callObserver_0: "callObserver E 0 = (\<lambda>observer s. None)"
  by (simp add: callObserver_def)

lemma callObserver_Suc: "callObserver E (Suc n) = callObserver_body (bounded E n)"
  by (simp add: callObserver_def Let_def)

lemma computed_get_0: "computed_get E 0 = (\<lambda>c s. None)"
  by (simp add: computed_get_def)

lemma computed_get_Suc: "computed_get E (Suc n) = computed_get_body E (bounded E n)"
  by (simp add: computed_get_def Let_def)

lemma bulkEffects_0: "bulkEffects E 0 = (\<lambda>effect onError s. None)"
  by (simp add: bulkEffects_def)

lemma bulkEffects_Suc: "bulkEffects E (Suc n) = bulkEffects_body E (bounded E n)"
  by (simp add: bulkEffects_def Let_def)

lemma drainQueue_0: "drainQueue E 0 = (\<lambda>s. None)"
  by (simp add: drainQueue_def)

lemma drainQueue_Suc: "drainQueue E (Suc n) = drainQueue_body (bounded E n)"
  by (simp add: drainQueue_def Let_def)

lemma action_0: "action E 0 = (\<lambda>name fn s. None)"
  by (simp add: action_def)

lemma action_Suc: "action E (Suc n) = action_body (bounded E n)"
  by (simp add: action_def Let_def)

lemma handleOrLog_0: "handleOrLog E 0 = (\<lambda>error onError s. None)"
  by (simp add: handleOrLog_def)

lemma handleOrLog_Suc: "handleOrLog E (Suc n) = handleOrLog_body E (bounded E n)"
  by (simp add: handleOrLog_def Let_def)

lemma handleError_0: "handleError E 0 = (\<lambda>r error s. None)"
  by (simp add: handleError_def)

lemma handleError_Suc: "handleError E (Suc n) = handleError_body E (bounded E n)"
  by (simp add: handleError_def Let_def)

lemma effectWrap_0: "effectWrap E 0 = (\<lambda>r s. None)"
  by (simp add: effectWrap_def)

lemma effectWrap_Suc: "effectWrap E (Suc n) = effectWrap_body E (bounded E n)"
  by (simp add: effectWrap_def Let_def)

lemma onceEffect_0: "onceEffect E 0 = (\<lambda>r s. None)"
  by (simp add: onceEffect_def)

lemma onceEffect_Suc: "onceEffect E (Suc n) = onceEffect_body E (bounded E n)"
  by (simp add: onceEffect_def Let_def)

lemma createOnceLoop_0: "createOnceLoop E 0 = (\<lambda>r s. None)"
  by (simp add: createOnceLoop_def)

lemma createOnceLoop_Suc: "createOnceLoop E (Suc n) = createOnceLoop_body (bounded E n)"
  by (simp add: createOnceLoop_def Let_def)

lemma once_0: "once E 0 = (\<lambda>w s. None)"
  by (simp add: once_def)

lemma once_Suc: "once E (Suc n) = once_body E (bounded E n)"
  by (simp add: once_def Let_def)

lemmas engine_0 =
  exec_0
  signal_set_0
  signal_changed_0
  signal_edit_0
  triggerObservers_0
  callObserver_0
  computed_get_0
  bulkEffects_0
  drainQueue_0
  action_0
  handleOrLog_0
  handleError_0
  effectWrap_0
  onceEffect_0
  createOnceLoop_0
  once_0

lemmas engine_Suc =
  exec_Suc
  signal_set_Suc
  signal_changed_Suc
  signal_edit_Suc
  triggerObservers_Suc
  callObserver_Suc
  computed_get_Suc
  bulkEffects_Suc
  drainQueue_Suc
  action_Suc
  handleOrLog_Suc
  handleError_Suc
  effectWrap_Suc
  onceEffect_Suc
  createOnceLoop_Suc
  once_Suc

declare bounded.simps [simp del]

section \<open>Evaluation\<close>

lemma andThen_simps:
  "andThen None f = None"
  "andThen (Some (Inl e, s)) f = Some (Inl e, s)"
  "andThen (Some (Inr x, s)) f = f x s"
  by (simp_all add: andThen_def)

lemma catch_simps:
  "catch None h = None"
  "catch (Some (Inl e, s)) h = h e s"
  "catch (Some (Inr x, s)) h = Some (Inr x, s)"
  by (simp_all add: catch_def)

lemma ensuring_simps:
  "ensuring None f = None"
  "ensuring (Some (x, s)) f =
     (case f s of None \<Rightarrow> None
      | Some (Inl e, s') \<Rightarrow> Some (Inl e, s')
      | Some (Inr u, s') \<Rightarrow> Some (x, s'))"
  by (simp_all add: ensuring_def)

text \<open>Congruence rules that keep the simplifier out of a continuation until the call before
  it has been evaluated.\<close>

lemma andThen_weak: "r = r' \<Longrightarrow> andThen r f = andThen r' f"
  by simp

lemma catch_weak: "r = r' \<Longrightarrow> catch r h = catch r' h"
  by simp

lemma ensuring_weak: "r = r' \<Longrightarrow> ensuring r f = ensuring r' f"
  by simp

lemma forEach_weak: "xs = xs' \<Longrightarrow> s = s' \<Longrightarrow> forEach f xs s = forEach f xs' s'"
  by simp

lemma resumeTrackingWhile_weak:
  "s = s' \<Longrightarrow> resumeTrackingWhile fn s = resumeTrackingWhile fn s'"
  by simp

lemma returns_simps:
  "returns None P = False"
  "returns (Some (Inl e, s)) P = False"
  "returns (Some (Inr x, s)) P = P x s"
  by (simp_all add: returns_def)

lemma throws_simps:
  "throws None Q = False"
  "throws (Some (Inl e, s)) Q = Q e s"
  "throws (Some (Inr x, s)) Q = False"
  by (simp_all add: throws_def)

lemma returns_weak: "r = r' \<Longrightarrow> returns r P = returns r' P"
  by simp

lemma throws_weak: "r = r' \<Longrightarrow> throws r Q = throws r' Q"
  by simp

lemma depth_ge: "k \<le> n \<Longrightarrow> \<exists>m. n = m + k"
  for n :: nat
  by (metis le_iff_add add.commute)

lemmas body_defs =
  signal_set_body_def signal_changed_body_def signal_edit_body_def triggerObservers_body_def
  computed_get_body_def bulkEffects_body_def drainQueue_body_def action_body_def
  handleError_body_def effectWrap_body_def onceEffect_body_def createOnceLoop_body_def
  once_body_def

lemmas run_defs =
  ok_def throw_def andThen_simps catch_simps ensuring_simps resumeTrackingWhile_def
  registerDependency_def clearDependencies_def untrack_def setAdd_def members_def
  currentObserver_def enterBulk_def logged_def consoleError_def fnName_def throwNew_def
  newError_def describeError_def stackSize_def MAX_REACTION_DEPTH_def

lemmas eval =
  engine_Suc engine_0 fold_engine body_defs run_defs numeral_eq_Suc returns_simps throws_simps

lemmas env_defs = noEnv_def noComputed_def noReaction_def noOnce_def initial_def reaction_def

lemmas weak_congs =
  andThen_weak catch_weak ensuring_weak forEach_weak resumeTrackingWhile_weak returns_weak
  throws_weak

section \<open>More depth gives the same result\<close>

text \<open>A call that returned within a bound on the depth returns the same, in the same state,
  within every larger bound.\<close>

lemma le_refl: "le r r"
  by (simp add: le_def)

lemma le_None: "le None r"
  by (simp add: le_def)

lemma le_andThen:
  "le r r' \<Longrightarrow> (\<And>x s. le (f x s) (f' x s)) \<Longrightarrow> le (andThen r f) (andThen r' f')"
  by (auto simp: le_def andThen_def split: option.splits sum.splits prod.splits)

lemma le_catch:
  "le r r' \<Longrightarrow> (\<And>e s. le (h e s) (h' e s)) \<Longrightarrow> le (catch r h) (catch r' h')"
  by (auto simp: le_def catch_def split: option.splits sum.splits prod.splits)

lemma le_ensuring:
  assumes r: "le r r'" and f: "\<And>s. le (f s) (f' s)"
  shows "le (ensuring r f) (ensuring r' f')"
proof (cases r)
  case None
  then show ?thesis by (simp add: le_def ensuring_def)
next
  case (Some a)
  obtain x s where a: "a = (x, s)" by (cases a)
  from r Some have r': "r' = Some (x, s)" by (simp add: le_def a)
  show ?thesis
  proof (cases "f s")
    case None
    then show ?thesis by (simp add: le_def ensuring_def Some a)
  next
    case fs: (Some b)
    with f [of s] have "f' s = Some b" by (simp add: le_def)
    with fs show ?thesis by (simp add: le_def ensuring_def Some a r')
  qed
qed

lemma le_forEach:
  "(\<And>x s. le (f x s) (f' x s)) \<Longrightarrow> le (forEach f xs s) (forEach f' xs s)"
  by (induction xs arbitrary: s) (auto intro!: le_refl le_andThen)

lemma le_resumeTrackingWhile:
  "(\<And>s. le (fn s) (fn' s)) \<Longrightarrow> le (resumeTrackingWhile fn s) (resumeTrackingWhile fn' s)"
  unfolding resumeTrackingWhile_def by (rule le_ensuring) (auto intro!: le_refl)

lemmas le_intros =
  le_refl le_andThen le_catch le_ensuring le_forEach le_resumeTrackingWhile

lemma engine_leD:
  assumes "engine_le rec rec'"
  shows "le (exec_f rec d p s) (exec_f rec' d p s)"
    "le (signal_set_f rec x v s) (signal_set_f rec' x v s)"
    "le (signal_changed_f rec x s) (signal_changed_f rec' x s)"
    "le (signal_edit_f rec x editor s) (signal_edit_f rec' x editor s)"
    "le (triggerObservers_f rec dep s) (triggerObservers_f rec' dep s)"
    "le (callObserver_f rec obs s) (callObserver_f rec' obs s)"
    "le (computed_get_f rec c s) (computed_get_f rec' c s)"
    "le (bulkEffects_f rec effect onError s) (bulkEffects_f rec' effect onError s)"
    "le (drainQueue_f rec s) (drainQueue_f rec' s)"
    "le (action_f rec name fn s) (action_f rec' name fn s)"
    "le (handleOrLog_f rec e h s) (handleOrLog_f rec' e h s)"
    "le (handleError_f rec r e s) (handleError_f rec' r e s)"
    "le (effectWrap_f rec r s) (effectWrap_f rec' r s)"
    "le (onceEffect_f rec r s) (onceEffect_f rec' r s)"
    "le (createOnceLoop_f rec r s) (createOnceLoop_f rec' r s)"
    "le (once_f rec w s) (once_f rec' w s)"
  using assms by (simp_all add: engine_le_def)

lemma bodies_le:
  assumes "engine_le rec rec'"
  shows "engine_le
    \<lparr>exec_f = exec_body rec,
       signal_set_f = signal_set_body rec,
       signal_changed_f = signal_changed_body rec,
       signal_edit_f = signal_edit_body rec,
       triggerObservers_f = triggerObservers_body rec,
       callObserver_f = callObserver_body rec,
       computed_get_f = computed_get_body E rec,
       bulkEffects_f = bulkEffects_body E rec,
       drainQueue_f = drainQueue_body rec,
       action_f = action_body rec,
       handleOrLog_f = handleOrLog_body E rec,
       handleError_f = handleError_body E rec,
       effectWrap_f = effectWrap_body E rec,
       onceEffect_f = onceEffect_body E rec,
       createOnceLoop_f = createOnceLoop_body rec,
       once_f = once_body E rec\<rparr>
    \<lparr>exec_f = exec_body rec',
       signal_set_f = signal_set_body rec',
       signal_changed_f = signal_changed_body rec',
       signal_edit_f = signal_edit_body rec',
       triggerObservers_f = triggerObservers_body rec',
       callObserver_f = callObserver_body rec',
       computed_get_f = computed_get_body E rec',
       bulkEffects_f = bulkEffects_body E rec',
       drainQueue_f = drainQueue_body rec',
       action_f = action_body rec',
       handleOrLog_f = handleOrLog_body E rec',
       handleError_f = handleError_body E rec',
       effectWrap_f = effectWrap_body E rec',
       onceEffect_f = onceEffect_body E rec',
       createOnceLoop_f = createOnceLoop_body rec',
       once_f = once_body E rec'\<rparr>"
proof -
  note d = engine_leD [OF assms]
  have 1: "le (exec_body rec dd p s) (exec_body rec' dd p s)" for dd p s
    by (cases p) (auto intro!: le_intros d)
  have 2: "le (signal_set_body rec x v s) (signal_set_body rec' x v s)" for x v s
    by (auto simp: signal_set_body_def intro!: le_intros d)
  have 3: "le (signal_changed_body rec x s) (signal_changed_body rec' x s)" for x s
    by (auto simp: signal_changed_body_def intro!: le_intros d)
  have 4: "le (signal_edit_body rec x editor s) (signal_edit_body rec' x editor s)" for x editor s
    by (auto simp: signal_edit_body_def intro!: le_intros d)
  have 5: "le (triggerObservers_body rec dep s) (triggerObservers_body rec' dep s)" for dep s
    by (auto simp: triggerObservers_body_def intro!: le_intros d split: option.splits)
  have 6: "le (callObserver_body rec obs s) (callObserver_body rec' obs s)" for obs s
    by (cases obs) (auto intro!: le_intros d)
  have 7: "le (computed_get_body E rec c s) (computed_get_body E rec' c s)" for c s
    by (auto simp: computed_get_body_def intro!: le_intros d)
  have thunk: "le (callThunk E rec effect s) (callThunk E rec' effect s)" for effect s
    by (cases effect) (auto intro!: le_intros d)
  have onerr: "le (callOnError E rec onError e s) (callOnError E rec' onError e s)"
    for onError e s
  proof (cases onError)
    case (OnceOnError obs)
    then show ?thesis
      by (cases obs) (auto intro!: le_intros d)
  qed (auto intro!: le_intros)
  have 8: "le (bulkEffects_body E rec effect onError s) (bulkEffects_body E rec' effect onError s)"
    for effect onError s
    by (auto simp: bulkEffects_body_def intro!: le_intros d thunk onerr)
  have 9: "le (drainQueue_body rec s) (drainQueue_body rec' s)" for s
    by (auto simp: drainQueue_body_def intro!: le_intros d)
  have 10: "le (action_body rec name fn s) (action_body rec' name fn s)" for name fn s
    by (auto simp: action_body_def intro!: le_intros d)
  have 11: "le (handleOrLog_body E rec e h s) (handleOrLog_body E rec' e h s)" for e h s
    by (cases h) (auto intro!: le_intros d split: option.splits)
  have 12: "le (handleError_body E rec r e s) (handleError_body E rec' r e s)" for r e s
    by (auto simp: handleError_body_def intro!: le_intros d)
  have 13: "le (effectWrap_body E rec r s) (effectWrap_body E rec' r s)" for r s
    by (auto simp: effectWrap_body_def intro!: le_intros d split: option.splits)
  have 14: "le (onceEffect_body E rec r s) (onceEffect_body E rec' r s)" for r s
    by (auto simp: onceEffect_body_def intro!: le_intros d)
  have 15: "le (createOnceLoop_body rec r s) (createOnceLoop_body rec' r s)" for r s
    by (auto simp: createOnceLoop_body_def intro!: le_intros d)
  have observe: "le (callObserve E rec w s) (callObserve E rec' w s)" for w s
    by (cases w) (auto intro!: le_intros d)
  have 16: "le (once_body E rec w s) (once_body E rec' w s)" for w s
    by (auto simp: once_body_def intro!: le_intros d observe)
  from 1 2 3 4 5 6 7 8 9 10 11 12 13 14 15 16 show ?thesis
    by (simp add: engine_le_def)
qed

lemma bounded_le: "engine_le (bounded E n) (bounded E (Suc n))"
proof (induction n)
  case 0
  show ?case
    by (simp add: engine_le_def bounded.simps(1) le_None)
next
  case (Suc n)
  from bodies_le [OF Suc, of E] show ?case
    by (simp add: bounded.simps(2) [of E "Suc n"] bounded.simps(2) [of E n] Let_def)
qed

lemma le_trans: "le a b \<Longrightarrow> le b c \<Longrightarrow> le a c"
  by (auto simp: le_def)

lemma engine_le_trans:
  assumes "engine_le a b" and "engine_le b c"
  shows "engine_le a c"
  unfolding engine_le_def
  by (intro conjI allI;
      (rule le_trans [OF engine_leD(1) [OF assms(1)] engine_leD(1) [OF assms(2)]]
       | rule le_trans [OF engine_leD(2) [OF assms(1)] engine_leD(2) [OF assms(2)]]
       | rule le_trans [OF engine_leD(3) [OF assms(1)] engine_leD(3) [OF assms(2)]]
       | rule le_trans [OF engine_leD(4) [OF assms(1)] engine_leD(4) [OF assms(2)]]
       | rule le_trans [OF engine_leD(5) [OF assms(1)] engine_leD(5) [OF assms(2)]]
       | rule le_trans [OF engine_leD(6) [OF assms(1)] engine_leD(6) [OF assms(2)]]
       | rule le_trans [OF engine_leD(7) [OF assms(1)] engine_leD(7) [OF assms(2)]]
       | rule le_trans [OF engine_leD(8) [OF assms(1)] engine_leD(8) [OF assms(2)]]
       | rule le_trans [OF engine_leD(9) [OF assms(1)] engine_leD(9) [OF assms(2)]]
       | rule le_trans [OF engine_leD(10) [OF assms(1)] engine_leD(10) [OF assms(2)]]
       | rule le_trans [OF engine_leD(11) [OF assms(1)] engine_leD(11) [OF assms(2)]]
       | rule le_trans [OF engine_leD(12) [OF assms(1)] engine_leD(12) [OF assms(2)]]
       | rule le_trans [OF engine_leD(13) [OF assms(1)] engine_leD(13) [OF assms(2)]]
       | rule le_trans [OF engine_leD(14) [OF assms(1)] engine_leD(14) [OF assms(2)]]
       | rule le_trans [OF engine_leD(15) [OF assms(1)] engine_leD(15) [OF assms(2)]]
       | rule le_trans [OF engine_leD(16) [OF assms(1)] engine_leD(16) [OF assms(2)]]))

lemma bounded_mono: "n \<le> m \<Longrightarrow> engine_le (bounded E n) (bounded E m)"
proof (induction m)
  case 0
  then show ?case by (simp add: engine_le_def le_refl)
next
  case (Suc m)
  show ?case
  proof (cases "n = Suc m")
    case True
    then show ?thesis by (simp add: engine_le_def le_refl)
  next
    case False
    with Suc have "engine_le (bounded E n) (bounded E m)" by simp
    then show ?thesis
      by (rule engine_le_trans) (rule bounded_le)
  qed
qed

lemma le_Some: "le r r' \<Longrightarrow> r = Some y \<Longrightarrow> r' = Some y"
  by (auto simp: le_def)

lemma more_depth:
  assumes "n \<le> m"
  shows "exec E n d p s = Some y \<Longrightarrow> exec E m d p s = Some y"
    "signal_set E n x v s = Some u \<Longrightarrow> signal_set E m x v s = Some u"
    "signal_changed E n x s = Some u \<Longrightarrow> signal_changed E m x s = Some u"
    "signal_edit E n x editor s = Some u \<Longrightarrow> signal_edit E m x editor s = Some u"
    "triggerObservers E n dep s = Some u \<Longrightarrow> triggerObservers E m dep s = Some u"
    "callObserver E n obs s = Some u \<Longrightarrow> callObserver E m obs s = Some u"
    "computed_get E n c s = Some y \<Longrightarrow> computed_get E m c s = Some y"
    "bulkEffects E n effect onError s = Some y \<Longrightarrow> bulkEffects E m effect onError s = Some y"
    "drainQueue E n s = Some u \<Longrightarrow> drainQueue E m s = Some u"
    "action E n name fn s = Some y \<Longrightarrow> action E m name fn s = Some y"
    "handleOrLog E n e h s = Some u \<Longrightarrow> handleOrLog E m e h s = Some u"
    "handleError E n r e s = Some u \<Longrightarrow> handleError E m r e s = Some u"
    "effectWrap E n r s = Some u \<Longrightarrow> effectWrap E m r s = Some u"
    "onceEffect E n r s = Some y \<Longrightarrow> onceEffect E m r s = Some y"
    "createOnceLoop E n r s = Some u \<Longrightarrow> createOnceLoop E m r s = Some u"
    "once E n w s = Some z \<Longrightarrow> once E m w s = Some z"
  unfolding exec_def signal_set_def signal_changed_def signal_edit_def triggerObservers_def
        callObserver_def computed_get_def bulkEffects_def drainQueue_def action_def
        handleOrLog_def handleError_def effectWrap_def onceEffect_def createOnceLoop_def
        once_def
  by (rule le_Some [OF engine_leD(1) [OF bounded_mono [OF assms]]],
      assumption,
      rule le_Some [OF engine_leD(2) [OF bounded_mono [OF assms]]],
      assumption,
      rule le_Some [OF engine_leD(3) [OF bounded_mono [OF assms]]],
      assumption,
      rule le_Some [OF engine_leD(4) [OF bounded_mono [OF assms]]],
      assumption,
      rule le_Some [OF engine_leD(5) [OF bounded_mono [OF assms]]],
      assumption,
      rule le_Some [OF engine_leD(6) [OF bounded_mono [OF assms]]],
      assumption,
      rule le_Some [OF engine_leD(7) [OF bounded_mono [OF assms]]],
      assumption,
      rule le_Some [OF engine_leD(8) [OF bounded_mono [OF assms]]],
      assumption,
      rule le_Some [OF engine_leD(9) [OF bounded_mono [OF assms]]],
      assumption,
      rule le_Some [OF engine_leD(10) [OF bounded_mono [OF assms]]],
      assumption,
      rule le_Some [OF engine_leD(11) [OF bounded_mono [OF assms]]],
      assumption,
      rule le_Some [OF engine_leD(12) [OF bounded_mono [OF assms]]],
      assumption,
      rule le_Some [OF engine_leD(13) [OF bounded_mono [OF assms]]],
      assumption,
      rule le_Some [OF engine_leD(14) [OF bounded_mono [OF assms]]],
      assumption,
      rule le_Some [OF engine_leD(15) [OF bounded_mono [OF assms]]],
      assumption,
      rule le_Some [OF engine_leD(16) [OF bounded_mono [OF assms]]],
      assumption)

section \<open>Observers do not throw\<close>

text \<open>Whatever a user function throws inside an observer is caught and handed to
  \<^verbatim>\<open>onError\<close> or to \<^verbatim>\<open>console.error\<close>; an error thrown by \<^verbatim>\<open>onError\<close> is caught and
  logged too. Only \<^verbatim>\<open>action\<close> passes an error on.\<close>

lemma quiet_iff: "quiet r \<longleftrightarrow> (\<forall>e s. r \<noteq> Some (Inl e, s))"
  by (auto simp: quiet_def split: option.splits sum.splits prod.splits)

lemma quiet_None: "quiet None"
  by (simp add: quiet_def)

lemma quiet_ok: "quiet (ok x s)"
  by (simp add: quiet_def ok_def)

lemma quiet_consoleError: "quiet (consoleError e s)"
  by (simp add: consoleError_def quiet_ok)

lemma quiet_andThen: "quiet r \<Longrightarrow> (\<And>x s. quiet (f x s)) \<Longrightarrow> quiet (andThen r f)"
  by (auto simp: quiet_iff andThen_def split: option.splits sum.splits prod.splits)

lemma quiet_catch: "(\<And>e s. quiet (h e s)) \<Longrightarrow> quiet (catch r h)"
  by (auto simp: quiet_iff catch_def split: option.splits sum.splits prod.splits)

lemma quiet_ensuring: "quiet r \<Longrightarrow> (\<And>s. quiet (f s)) \<Longrightarrow> quiet (ensuring r f)"
  by (auto simp: quiet_iff ensuring_def split: option.splits sum.splits prod.splits)

lemma quiet_forEach: "(\<And>x s. quiet (f x s)) \<Longrightarrow> quiet (forEach f xs s)"
  by (induction xs arbitrary: s) (auto intro!: quiet_ok quiet_andThen)

lemmas quiet_intros =
  quiet_None quiet_ok quiet_consoleError quiet_andThen quiet_catch quiet_ensuring quiet_forEach

lemma observers_never_throw:
  "(\<forall>x s. quiet (signal_changed E n x s)) \<and>
   (\<forall>d s. quiet (triggerObservers E n d s)) \<and>
   (\<forall>obs s. quiet (callObserver E n obs s)) \<and>
   (\<forall>effect onError s. onError \<noteq> Rethrow \<longrightarrow> quiet (bulkEffects E n effect onError s)) \<and>
   (\<forall>s. quiet (drainQueue E n s)) \<and>
   (\<forall>e h s. quiet (handleOrLog E n e h s)) \<and>
   (\<forall>r e s. quiet (handleError E n r e s)) \<and>
   (\<forall>r s. quiet (effectWrap E n r s)) \<and>
   (\<forall>r s. quiet (createOnceLoop E n r s)) \<and>
   (\<forall>w s. quiet (once E n w s))"
proof (induction n)
  case 0
  show ?case
    by (simp add: engine_0 quiet_None)
next
  case (Suc n)
  have
    ch: "\<And>x s. quiet (signal_changed E n x s)" and
    tr: "\<And>d s. quiet (triggerObservers E n d s)" and
    co: "\<And>obs s. quiet (callObserver E n obs s)" and
    bu: "\<And>effect onError s. onError \<noteq> Rethrow \<Longrightarrow> quiet (bulkEffects E n effect onError s)" and
    dr: "\<And>s. quiet (drainQueue E n s)" and
    ho: "\<And>e h s. quiet (handleOrLog E n e h s)" and
    he: "\<And>r e s. quiet (handleError E n r e s)" and
    ew: "\<And>r s. quiet (effectWrap E n r s)" and
    cl: "\<And>r s. quiet (createOnceLoop E n r s)" and
    on: "\<And>w s. quiet (once E n w s)"
    using Suc.IH by auto
  have 1: "quiet (signal_changed E (Suc n) x s)" for x s
    by (simp add: signal_changed_Suc signal_changed_body_def fold_engine)
       (intro conjI impI quiet_intros bu tr; simp)
  have 2: "quiet (triggerObservers E (Suc n) d s)" for d s
    by (simp add: triggerObservers_Suc triggerObservers_body_def fold_engine split: option.splits)
       (intro conjI impI allI quiet_intros; simp add: quiet_intros co fold_engine)
  have 3: "quiet (callObserver E (Suc n) obs s)" for obs s
    by (cases obs) (auto simp: callObserver_Suc fold_engine intro!: quiet_intros tr bu)
  have co_err: "onError \<noteq> Rethrow \<Longrightarrow> quiet (callOnError E (bounded E n) onError e s)"
    for onError e s
  proof (cases onError)
    case (OnceOnError obs)
    then show ?thesis
      by (cases obs) (auto simp: fold_engine intro!: quiet_intros ho)
  qed (auto intro!: quiet_intros)
  have 4: "onError \<noteq> Rethrow \<Longrightarrow> quiet (bulkEffects E (Suc n) effect onError s)"
    for effect onError s
    by (auto simp: bulkEffects_Suc bulkEffects_body_def fold_engine
          intro!: quiet_intros co_err dr)
  have 5: "quiet (drainQueue E (Suc n) s)" for s
    by (simp add: drainQueue_Suc drainQueue_body_def fold_engine)
       (intro conjI impI quiet_intros co dr)
  have 6: "quiet (handleOrLog E (Suc n) e h s)" for e h s
    by (cases h)
       (auto simp: handleOrLog_Suc fold_engine intro!: quiet_intros he split: option.splits)
  have 7: "quiet (handleError E (Suc n) r e s)" for r e s
    by (simp add: handleError_Suc handleError_body_def fold_engine ho)
  have 8: "quiet (effectWrap E (Suc n) r s)" for r s
    by (auto simp: effectWrap_Suc effectWrap_body_def fold_engine intro!: quiet_intros he
          split: option.splits)
  have 9: "quiet (createOnceLoop E (Suc n) r s)" for r s
    by (auto simp: createOnceLoop_Suc createOnceLoop_body_def fold_engine intro!: quiet_intros on)
  have 10: "quiet (once E (Suc n) w s)" for w s
    by (auto simp: once_Suc once_body_def fold_engine intro!: quiet_intros ho)
  from 1 2 3 4 5 6 7 8 9 10 show ?case
    by blast
qed


lemma triggerObservers_quiet: "quiet (triggerObservers E n d s)"
  using observers_never_throw [of E n] by simp


section \<open>Notification as delivery\<close>

lemma forEach_skip:
  "forEach (\<lambda>observer s'. if Some observer = cur then ok () s' else g observer s') xs s
     = forEach g (filter (\<lambda>observer. Some observer \<noteq> cur) xs) s"
  by (induction xs arbitrary: s)
     (simp_all add: ok_def andThen_def split: option.splits sum.splits prod.splits)

lemma triggerObservers_deliver:
  "triggerObservers E (Suc n) dependency s
     = forEach (deliver E n)
         (filter (\<lambda>observer. Some observer \<noteq> currentObserver s)
            (members (observerMap s dependency))) s"
proof (cases "observerMap s dependency")
  case None
  then show ?thesis
    by (simp add: triggerObservers_Suc triggerObservers_body_def members_def)
next
  case (Some observersSet)
  have "triggerObservers E (Suc n) dependency s
          = forEach (\<lambda>observer s'. if Some observer = currentObserver s then ok () s'
                       else deliver E n observer s') observersSet s"
    unfolding deliver_def callObserver_def
    using Some
    by (simp add: triggerObservers_Suc triggerObservers_body_def)
  then show ?thesis
    using Some by (simp add: forEach_skip members_def)
qed

section \<open>The log only grows\<close>


lemma trace_registerDependency [simp]: "trace (registerDependency d s) = trace s"
  by (simp add: registerDependency_def split: option.splits)

lemma trace_clearDependencies [simp]: "trace (clearDependencies observer s) = trace s"
  by (simp add: clearDependencies_def split: option.splits)

lemma trace_callDisposer [simp]: "trace (callDisposer d s) = trace s"
  by (cases d) (simp_all split: option.splits)

lemma trace_enterBulk [simp]: "trace (enterBulk name s) = trace s"
  by (simp add: enterBulk_def)

lemma trace_logged [simp]: "trace (logged ev s) = trace s @ [ev]"
  by (simp add: logged_def)















section \<open>Draining the queue\<close>





section \<open>An action that opens the outermost batch\<close>

text \<open>\<^verbatim>\<open>action(fn)\<close> called while no batch is open, from what \<^verbatim>\<open>fn\<close> and the drain of the
  queue do: the drain runs whether \<^verbatim>\<open>fn\<close> returned or threw, then the queue is closed and
  \<^verbatim>\<open>currentEffect\<close> and \<^verbatim>\<open>doNotTrack\<close> are restored.\<close>

lemma action_returns:
  assumes "effectQueue s = None"
    and "exec E n NoDisposer fn (logged (ActionBody name) (enterBulk name (s\<lparr>doNotTrack := True\<rparr>)))
           = Some (Inr v, s1)"
    and "drainQueue E n s1 = Some (Inr (), s2)"
  shows "action E (Suc (Suc n)) name fn s
           = Some (Inr v, s2\<lparr>reactionsDepthMap := (\<lambda>r. None), effectQueue := None,
                              currentEffect := currentEffect s, doNotTrack := doNotTrack s\<rparr>)"
  using assms
  by (simp add: action_Suc action_body_def bulkEffects_Suc bulkEffects_body_def fold_engine
        catch_simps ensuring_simps andThen_simps ok_def)

lemma action_throws:
  assumes "effectQueue s = None"
    and "exec E n NoDisposer fn (logged (ActionBody name) (enterBulk name (s\<lparr>doNotTrack := True\<rparr>)))
           = Some (Inl e, s1)"
    and "drainQueue E n s1 = Some (Inr (), s2)"
    and "currentEffect s1 = Some name"
  shows "action E (Suc (Suc n)) name fn s
           = Some (Inl (describeError e name),
                   s2\<lparr>reactionsDepthMap := (\<lambda>r. None), effectQueue := None,
                      currentEffect := currentEffect s, doNotTrack := doNotTrack s\<rparr>)"
  using assms
  by (simp add: action_Suc action_body_def bulkEffects_Suc bulkEffects_body_def fold_engine
        catch_simps ensuring_simps andThen_simps ok_def throw_def fnName_def)

section \<open>C1: a write inside an action runs the reaction of a diamond once\<close>

text \<open>
  Claim C1. Signal \<^verbatim>\<open>A\<close> holds \<open>a0\<close>; \<^verbatim>\<open>B = f(A)\<close> and \<^verbatim>\<open>C = g(A)\<close> are computeds and a
  reaction reads \<^verbatim>\<open>A\<close>, \<^verbatim>\<open>B\<close> and \<^verbatim>\<open>C\<close>. Creating the reaction runs its body once and
  computes \<^verbatim>\<open>B\<close> and \<^verbatim>\<open>C\<close>. Then \<^verbatim>\<open>action(() => A(v))\<close>, writing a value \<open>v\<close> other than
  the one \<^verbatim>\<open>A\<close> holds, returns, and between its start and its return the body of the
  reaction runs exactly once, after the function given to \<^verbatim>\<open>action\<close> has finished: the
  three notifications (from \<^verbatim>\<open>A\<close>, and from the observers of \<^verbatim>\<open>B\<close> and \<^verbatim>\<open>C\<close>, which run
  inline) put the same observer in the queue, and the queue is empty and closed at the
  end. This holds for every \<open>f\<close>, \<open>g\<close>, \<open>a0\<close>, \<open>v \<noteq> a0\<close> and every depth bound from 15 on.
\<close>

theorem diamond_reaction_runs_once:
  assumes "15 \<le> n" and "v \<noteq> a0"
  shows "returns (reaction (diamond f g) n 0 (initial (\<lambda>x. a0)))
           (\<lambda>u s1. trace s1 = [Acting 0, Computing 0, Computing 1] \<and>
              returns (action (diamond f g) n ''Action'' (Write 0 v (Return Undefined)) s1)
                (\<lambda>r s2. trace s2
                     = trace s1 @
                       [ActionBody ''Action'', Invoked (ComputedObserver 0),
                        Invoked (ComputedObserver 1), Invoked (OnceObserver 0 (ReactionOnce 0)),
                        Acting 0, Computing 0, Computing 1]
                   \<and> effectQueue s2 = None))"
proof -
  from assms(1) obtain m where "n = m + 15"
    using depth_ge by blast
  with assms(2) show ?thesis
    by (simp add: diamond_def env_defs eval cong: weak_congs)
qed

theorem diamond_reaction_runs_once_witness:
  "(15::nat) \<le> 15 \<and> Num 2 \<noteq> Num 1 \<and>
   returns (reaction (diamond id id) 15 0 (initial (\<lambda>x. Num 1)))
     (\<lambda>u s1. trace s1 = [Acting 0, Computing 0, Computing 1] \<and>
        returns (action (diamond id id) 15 ''Action'' (Write 0 (Num 2) (Return Undefined)) s1)
          (\<lambda>r s2. trace s2
               = trace s1 @
                       [ActionBody ''Action'', Invoked (ComputedObserver 0),
                        Invoked (ComputedObserver 1), Invoked (OnceObserver 0 (ReactionOnce 0)),
                        Acting 0, Computing 0, Computing 1]
             \<and> effectQueue s2 = None))"
  using diamond_reaction_runs_once [of 15 "Num 2" "Num 1" id id] by simp

section \<open>C2: writing the value a signal already holds\<close>

lemma signal_set_same:
  "signal_set E (Suc n) x (svalue s x) s =
     (if disallowWrites s
      then throwNew PlainError ''Writing to signals not allowed in this context.'' False s
      else ok () s)"
  by (simp add: signal_set_Suc signal_set_body_def)

text \<open>
  Claim C2. For every signal \<open>x\<close> and every state, \<open>k\<close> writes in a row of the value \<open>v\<close>
  that \<open>x\<close> holds all come back, and they leave the state as it was: the stored values,
  the registry, the queue, the flags of every computed and the log of calls are the same,
  so no observer was invoked or queued. Where writes are disallowed each of these writes
  throws the write violation instead, which draws a fresh error identity and changes
  nothing else. This holds at every depth bound above zero.
\<close>

theorem write_same_value:
  assumes "svalue s x = v"
  shows "\<exists>s'. repeatedly k (signal_set E (Suc n) x v) s = Some s'
           \<and> s'\<lparr>nextError := nextError s\<rparr> = s
           \<and> (\<not> disallowWrites s \<longrightarrow> s' = s)"
  using assms
proof (induction k arbitrary: s)
  case 0
  then show ?case by simp
next
  case (Suc k)
  show ?case
  proof (cases "disallowWrites s")
    case True
    let ?s1 = "s\<lparr>nextError := Suc (nextError s)\<rparr>"
    have step: "signal_set E (Suc n) x v s
      = Some (Inl (newError PlainError ''Writing to signals not allowed in this context.''
                     False s), ?s1)"
      using True Suc.prems signal_set_same [of E n x s] by (simp add: throwNew_def throw_def)
    have "svalue ?s1 x = v"
      using Suc.prems by simp
    from Suc.IH [OF this] obtain s' where
      r: "repeatedly k (signal_set E (Suc n) x v) ?s1 = Some s'"
      and e: "s'\<lparr>nextError := nextError ?s1\<rparr> = ?s1"
      by blast
    from e have "(s'\<lparr>nextError := nextError ?s1\<rparr>)\<lparr>nextError := nextError s\<rparr>
                  = ?s1\<lparr>nextError := nextError s\<rparr>"
      by simp
    then have "s'\<lparr>nextError := nextError s\<rparr> = s"
      by simp
    with r step True show ?thesis
      by simp
  next
    case False
    have step: "signal_set E (Suc n) x v s = Some (Inr (), s)"
      using False Suc.prems signal_set_same [of E n x s] by (simp add: ok_def)
    from Suc.IH [OF Suc.prems] obtain s' where
      "repeatedly k (signal_set E (Suc n) x v) s = Some s'"
      and "s'\<lparr>nextError := nextError s\<rparr> = s" and "\<not> disallowWrites s \<longrightarrow> s' = s"
      by blast
    with step False show ?thesis
      by simp
  qed
qed

theorem write_same_value_witness:
  "svalue (initial (\<lambda>x. Num 1)) 0 = Num 1 \<and>
   (\<exists>s'. repeatedly 3 (signal_set noEnv (Suc 0) 0 (Num 1)) (initial (\<lambda>x. Num 1)) = Some s'
      \<and> s'\<lparr>nextError := nextError (initial (\<lambda>x. Num 1))\<rparr> = initial (\<lambda>x. Num 1)
      \<and> (\<not> disallowWrites (initial (\<lambda>x. Num 1)) \<longrightarrow> s' = initial (\<lambda>x. Num 1)))"
  using write_same_value [of "initial (\<lambda>x. Num 1)" 0 "Num 1" 3 noEnv 0]
  by (simp add: initial_def)

section \<open>C7: the flags after a nested computed\<close>

text \<open>
  Claim C7 says that a computed which reads another computed still cannot write a signal
  afterwards. In the source \<^verbatim>\<open>get\<close> ends with \<^verbatim>\<open>disallowWrites = false\<close>, whatever the
  flag was when it started (\<^verbatim>\<open>resumeTrackingWhile\<close>, next to it, restores \<^verbatim>\<open>doNotTrack\<close>
  from the value it saved). So with \<^verbatim>\<open>s = signal(1)\<close>, \<^verbatim>\<open>inner = computed(() => 1)\<close> and
  \<^verbatim>\<open>outer = computed(() => { const v = inner(); s(2); return v; })\<close>, reading \<^verbatim>\<open>outer\<close>
  returns \<open>1\<close>, caches no error and leaves \<open>2\<close> in \<^verbatim>\<open>s\<close>; the same write in a computed that
  reads no other computed throws and leaves \<^verbatim>\<open>s\<close> alone.
\<close>

theorem nested_computed_allows_write:
  "returns (computed_get nestedWrite 10 0 (initial (\<lambda>x. Num 1)))
     (\<lambda>v s. v = Num 1 \<and> svalue s 0 = Num 2 \<and> cerror s 0 = None \<and> \<not> disallowWrites s)
   \<and> throws (computed_get nestedWrite 10 2 (initial (\<lambda>x. Num 1)))
     (\<lambda>e s. message e = ''Error in direct: Writing to signals not allowed in this context.''
        \<and> svalue s 0 = Num 1)"
  by (simp add: nestedWrite_def env_defs eval cong: weak_congs)

section \<open>C9: the observer on top of the stack is skipped\<close>

text \<open>
  Claim C9. In every state, \<^verbatim>\<open>triggerObservers\<close> of a dependency is the same as delivering
  the notification, in order, to each observer the dependency had when the call started,
  except the observer that is on top of the observer stack at that moment: that one is
  neither invoked nor queued by the call, every other one is delivered (the loop stops
  early only if the depth bound is used up; an observer does not throw). While an
  observer is being evaluated it is the top of the stack, so a change it makes to one of
  its own dependencies does not trigger it again.
\<close>

theorem notify_skips_current_observer:
  "triggerObservers E (Suc n) dependency s
     = forEach (deliver E n)
         (filter (\<lambda>observer. Some observer \<noteq> currentObserver s)
            (members (observerMap s dependency))) s
   \<and> quiet (triggerObservers E (Suc n) dependency s)"
proof (intro conjI)
  show "triggerObservers E (Suc n) dependency s
     = forEach (deliver E n)
         (filter (\<lambda>observer. Some observer \<noteq> currentObserver s)
            (members (observerMap s dependency))) s"
    by (rule triggerObservers_deliver)
  show "quiet (triggerObservers E (Suc n) dependency s)"
    by (rule triggerObservers_quiet)
qed

text \<open>A reaction whose action reads signal \<open>0\<close> and writes it, as in
  \<^verbatim>\<open>reaction(() => { a(); a(v); })\<close>: creating it runs the action once, and the write,
  made while the new observer is on top of the stack, neither runs it again nor leaves
  anything in the queue. A later write from outside runs it once more.\<close>

theorem notify_skips_current_observer_witness:
  "returns (reaction (selfWriting (Num 2)) 20 0 (initial (\<lambda>x. Num 1)))
     (\<lambda>u s1. trace s1 = [Acting 0] \<and> svalue s1 0 = Num 2 \<and> effectQueue s1 = None
        \<and> observerMap s1 (SignalDep 0) = Some [OnceObserver 0 (ReactionOnce 0)]
        \<and> triggerObservers (selfWriting (Num 2)) (Suc 0) (SignalDep 0)
              (s1\<lparr>observersStack := [OnceObserver 0 (ReactionOnce 0)], effectQueue := Some []\<rparr>)
            = ok () (s1\<lparr>observersStack := [OnceObserver 0 (ReactionOnce 0)],
                         effectQueue := Some []\<rparr>)
        \<and> returns (signal_set (selfWriting (Num 2)) 20 0 (Num 3) s1)
             (\<lambda>u s2. trace s2 = [Acting 0, Invoked (OnceObserver 0 (ReactionOnce 0)), Acting 0]
                \<and> svalue s2 0 = Num 2))"
  using notify_skips_current_observer
    [of "selfWriting (Num 2)" 0 "SignalDep 0"
        "the_state (reaction (selfWriting (Num 2)) 20 0 (initial (\<lambda>x. Num 1)))
           \<lparr>observersStack := [OnceObserver 0 (ReactionOnce 0)], effectQueue := Some []\<rparr>"]
  by (simp add: selfWriting_def the_state_def env_defs eval deliver_def cong: weak_congs)

section \<open>C10: only a write looks at the flag\<close>



lemma computed_may_edit_and_change:
  "returns (once editing 12 (UserOnce 0) (initial (\<lambda>x. Num 1)))
     (\<lambda>observer s1.
        returns (computed_get editing 12 0 s1)
          (\<lambda>v s2. v = Num 7
             \<and> trace s2 = [Observing 0, Computing 0, Editing 0 (Num 1), Invoked observer,
                            Effecting 0])
        \<and> throws (computed_get editing 12 1 s1)
            (\<lambda>e s2. message e
                 = ''Error in writes: Writing to signals not allowed in this context.''
               \<and> trace s2 = [Observing 0, Computing 1]))"
  by (simp add: editing_def env_defs eval cong: weak_congs)

section \<open>Reading a computed\<close>

lemma registerDependency_keeps [simp]:
  "svalue (registerDependency d s) = svalue s"
  "cvalue (registerDependency d s) = cvalue s"
  "cerror (registerDependency d s) = cerror s"
  "hasChanges (registerDependency d s) = hasChanges s"
  "trace (registerDependency d s) = trace s"
  "observersStack (registerDependency d s) = observersStack s"
  "doNotTrack (registerDependency d s) = doNotTrack s"
  "disallowWrites (registerDependency d s) = disallowWrites s"
  "effectQueue (registerDependency d s) = effectQueue s"
  by (simp_all add: registerDependency_def split: option.splits)



section \<open>The cache of a computed\<close>










lemma since_self [simp]: "since s s = []"
  by (simp add: since_def)




lemma steady_view:
  assumes "steady c s s1"
    and "trace s2 = trace s1" and "hasChanges s2 c = hasChanges s1 c"
    and "cerror s2 c = cerror s1 c" and "cvalue s2 c = cvalue s1 c"
  shows "steady c s s2"
  using assms by (simp add: steady_def dirty_def since_def)

lemma hasChanges_clearDependencies [simp]:
  "hasChanges (clearDependencies observer s) = hasChanges s"
  "cerror (clearDependencies observer s) = cerror s"
  "cvalue (clearDependencies observer s) = cvalue s"
  by (simp_all add: clearDependencies_def split: option.splits)

lemma hasChanges_callDisposer [simp]:
  "hasChanges (callDisposer d s) = hasChanges s"
  "cerror (callDisposer d s) = cerror s"
  "cvalue (callDisposer d s) = cvalue s"
  by (cases d; simp split: option.splits)+

lemma hasChanges_enterBulk [simp]:
  "hasChanges (enterBulk name s) = hasChanges s"
  "cerror (enterBulk name s) = cerror s"
  "cvalue (enterBulk name s) = cvalue s"
  by (simp_all add: enterBulk_def)

lemma hasChanges_logged [simp]:
  "hasChanges (logged ev s) = hasChanges s"
  "cerror (logged ev s) = cerror s"
  "cvalue (logged ev s) = cvalue s"
  by (simp_all add: logged_def)

lemma steady_simps [simp]:
  "steady c s (s1\<lparr>svalue := a1\<rparr>) = steady c s s1"
  "steady c s (s1\<lparr>observersStack := a2\<rparr>) = steady c s s1"
  "steady c s (s1\<lparr>dependencyMap := a3\<rparr>) = steady c s s1"
  "steady c s (s1\<lparr>observerMap := a4\<rparr>) = steady c s s1"
  "steady c s (s1\<lparr>effectQueue := a5\<rparr>) = steady c s s1"
  "steady c s (s1\<lparr>doNotTrack := a6\<rparr>) = steady c s s1"
  "steady c s (s1\<lparr>disallowWrites := a7\<rparr>) = steady c s s1"
  "steady c s (s1\<lparr>currentEffect := a8\<rparr>) = steady c s s1"
  "steady c s (s1\<lparr>reactionsDepthMap := a9\<rparr>) = steady c s s1"
  "steady c s (s1\<lparr>rvalue := a10\<rparr>) = steady c s s1"
  "steady c s (s1\<lparr>onceDisposer := a11\<rparr>) = steady c s s1"
  "steady c s (s1\<lparr>internalDisposerCalled := a12\<rparr>) = steady c s s1"
  "steady c s (s1\<lparr>nextObserver := a13\<rparr>) = steady c s s1"
  "steady c s (s1\<lparr>nextError := a14\<rparr>) = steady c s s1"
  "steady c s (registerDependency d s1) = steady c s s1"
  "steady c s (clearDependencies observer s1) = steady c s s1"
  "steady c s (callDisposer dd s1) = steady c s s1"
  "steady c s (enterBulk name s1) = steady c s s1"
  by (simp_all add: steady_def dirty_def since_def)










lemma trace_evaluating [simp]: "trace (evaluating c s) = trace s @ [Computing c]"
  by (simp add: evaluating_def)



section \<open>A change reaches the computeds subscribed to it\<close>

lemma invalidated_simps [simp]:
  "invalidated c t (s1\<lparr>svalue := a1\<rparr>) = invalidated c t s1"
  "invalidated c t (s1\<lparr>effectQueue := a5\<rparr>) = invalidated c t s1"
  "invalidated c t (s1\<lparr>currentEffect := a8\<rparr>) = invalidated c t s1"
  "invalidated c t (s1\<lparr>reactionsDepthMap := a9\<rparr>) = invalidated c t s1"
  by (simp_all add: invalidated_def dirty_def since_def)











lemma enterBulk_fields [simp]:
  "observerMap (enterBulk name s) = observerMap s"
  "currentObserver (enterBulk name s) = currentObserver s"
  by (simp_all add: enterBulk_def currentObserver_def)



section \<open>C3: reads of a computed whose dependencies do not change\<close>




section \<open>C4: a computed that throws\<close>




section \<open>The reaction that feeds itself, firing by firing\<close>

lemmas feeding_defs =
  feeding_def waiting_def round_def stopped_def observerNo_def depthAfter_def firing_def
  closed_def circularError_def reported_def circularMessage_def advance_def

lemma fed_created:
  "reaction (feeding D step handled) (n + 8) 0 (initial init)
     = Some (Inr (), waiting init 0 (init 0) (init 0) [Acting 0])"
  by (cases handled) (simp_all add: feeding_defs env_defs eval cong: weak_congs)

lemma fed_body:
  assumes "v \<noteq> c"
  shows "exec (feeding D step handled) (n + 8) NoDisposer (Write 0 v (Return Undefined))
     (logged (ActionBody name) (enterBulk name ((waiting init j c rv tr)\<lparr>doNotTrack := True\<rparr>)))
   = Some (Inr Undefined, round init name 0 j v rv (tr @ [ActionBody name]) [observerNo j])"
  using assms
  by (cases handled) (simp_all add: feeding_defs env_defs eval cong: weak_congs)

lemma one_firing:
  assumes "k \<le> 100"
  shows "callObserver (feeding D step handled) (n + 15) (observerNo j)
           (round init name k j c rv tr [])
         = Some (Inr (), round init name (Suc k) (Suc j) (advance step c) c (tr @ firing j c)
                   (if advance step c = c then [] else [observerNo (Suc j)]))"
proof (cases "step c")
  case None
  with assms show ?thesis
    by (cases handled;
        simp add: feeding_defs env_defs eval cong: weak_congs; (simp add: add.commute)?)
next
  case (Some v)
  with assms show ?thesis
    by (cases handled; cases "v = c";
        simp add: feeding_defs env_defs eval cong: weak_congs; (simp add: add.commute)?)
qed

lemma last_firing:
  "callObserver (feeding D step handled) (n + 15) (observerNo j)
     (round init name 101 j c rv tr [])
     = Some (Inr (), stopped init name j c rv
               (tr @ [Invoked (observerNo j), reported handled (circularError D)]))"
  by (cases handled) (simp_all add: feeding_defs env_defs eval cong: weak_congs)

lemma round_queue:
  "(round init name k j c rv tr q)\<lparr>effectQueue := Some []\<rparr> = round init name k j c rv tr []"
  by (simp add: round_def)

lemma round_members: "members (effectQueue (round init name k j c rv tr q)) = q"
  by (simp add: round_def members_def)

lemma one_round:
  assumes "15 \<le> m" and "k \<le> 100"
  shows "drainQueue (feeding D step handled) (Suc m) (round init name k j c rv tr [observerNo j])
           = drainQueue (feeding D step handled) m
               (round init name (Suc k) (Suc j) (advance step c) c (tr @ firing j c)
                  (if advance step c = c then [] else [observerNo (Suc j)]))"
proof -
  from assms(1) obtain n where "m = n + 15"
    using depth_ge by blast
  with one_firing [OF assms(2), of D step handled n j init name c rv tr]
  have "callObserver (feeding D step handled) m (observerNo j) (round init name k j c rv tr [])
         = Some (Inr (), round init name (Suc k) (Suc j) (advance step c) c (tr @ firing j c)
                   (if advance step c = c then [] else [observerNo (Suc j)]))"
    by simp
  then show ?thesis
    by (simp add: drainQueue_Suc drainQueue_body_def fold_engine round_queue round_members
          andThen_simps ok_def)
qed

lemma rounds:
  assumes "15 \<le> m"
  shows "chain step c i \<Longrightarrow> k + i \<le> 101 \<Longrightarrow>
         drainQueue (feeding D step handled) (i + m) (round init name k j c rv tr [observerNo j])
           = drainQueue (feeding D step handled) m
               (round init name (k + i) (j + i) (orbit step c i) (lastRead step rv c i)
                  (tr @ firings step j c i) [observerNo (j + i)])"
proof (induction i arbitrary: k j c rv tr)
  case 0
  then show ?case by simp
next
  case (Suc i)
  from Suc.prems have new: "advance step c \<noteq> c" and rest: "chain step (advance step c) i"
    by simp_all
  have "drainQueue (feeding D step handled) (Suc (i + m))
          (round init name k j c rv tr [observerNo j])
        = drainQueue (feeding D step handled) (i + m)
            (round init name (Suc k) (Suc j) (advance step c) c (tr @ firing j c)
               [observerNo (Suc j)])"
    using one_round [of "i + m" k D step handled init name j c rv tr] assms Suc.prems new
    by simp
  also have "\<dots> = drainQueue (feeding D step handled) m
               (round init name (Suc k + i) (Suc j + i) (orbit step (advance step c) i)
                  (lastRead step c (advance step c) i)
                  ((tr @ firing j c) @ firings step (Suc j) (advance step c) i)
                  [observerNo (Suc j + i)])"
    using Suc.prems by (intro Suc.IH [OF rest]) simp
  finally show ?case
    by simp
qed

lemma drained:
  "drainQueue E (Suc m) (round init name k j c rv tr []) = Some (Inr (), round init name k j c rv tr [])"
  "drainQueue E (Suc m) (stopped init name j c rv tr) = Some (Inr (), stopped init name j c rv tr)"
  by (simp_all add: drainQueue_Suc drainQueue_body_def stopped_def round_def members_def ok_def)

lemma last_round:
  assumes "14 \<le> m"
  shows "drainQueue (feeding D step handled) (Suc (Suc m))
           (round init name 101 j c rv tr [observerNo j])
         = Some (Inr (), stopped init name j c rv
               (tr @ [Invoked (observerNo j), reported handled (circularError D)]))"
proof -
  from assms(1) obtain n where "m = n + 14"
    using depth_ge [of 14 m] by auto
  with last_firing [of D step handled n j init name c rv tr]
  have "callObserver (feeding D step handled) (Suc m) (observerNo j)
          (round init name 101 j c rv tr [])
     = Some (Inr (), stopped init name j c rv
               (tr @ [Invoked (observerNo j), reported handled (circularError D)]))"
    by (simp add: add.commute)
  then show ?thesis
    by (simp add: drainQueue_Suc [of _ "Suc m"] drainQueue_body_def fold_engine round_queue
          round_members andThen_simps ok_def drained)
qed

lemma settle_round:
  assumes "14 \<le> m" and "k \<le> 100" and "advance step c = c"
  shows "drainQueue (feeding D step handled) (Suc (Suc m))
           (round init name k j c rv tr [observerNo j])
         = Some (Inr (), round init name (Suc k) (Suc j) c c (tr @ firing j c) [])"
  using one_round [of "Suc m" k D step handled init name j c rv tr] assms
  by (simp add: drained)

lemma firings_last:
  "firings step j c (Suc i) = firings step j c i @ firing (j + i) (orbit step c i)"
  by (induction i arbitrary: j c) simp_all

lemma firings_reacting: "length (filter isReacting (firings step j c i)) = i"
  by (induction i arbitrary: j c) (simp_all add: firing_def)

lemma closed_round:
  "(round init name k j c rv tr [])
      \<lparr>reactionsDepthMap := (\<lambda>r. None), effectQueue := None, currentEffect := None,
       doNotTrack := False\<rparr> = waiting init j c rv tr"
  by (simp add: round_def waiting_def)

lemma waiting_fields:
  "effectQueue (waiting init j c rv tr) = None"
  "currentEffect (waiting init j c rv tr) = None"
  "doNotTrack (waiting init j c rv tr) = False"
  "trace (waiting init j c rv tr) = tr"
  "svalue (waiting init j c rv tr) 0 = c"
  by (simp_all add: waiting_def)

lemma batch_settles:
  assumes "chain step v i" and "advance step (orbit step v i) = orbit step v i"
    and "i \<le> 100" and "v \<noteq> c"
  shows "action (feeding D step handled) (i + 18) name (Write 0 v (Return Undefined))
           (waiting init j c rv tr)
         = Some (Inr Undefined,
             waiting init (Suc (j + i)) (orbit step v i) (orbit step v i)
               (tr @ ActionBody name # firings step j v (Suc i)))"
proof -
  let ?E = "feeding D step handled"
  have b: "exec ?E (i + 16) NoDisposer (Write 0 v (Return Undefined))
     (logged (ActionBody name) (enterBulk name ((waiting init j c rv tr)\<lparr>doNotTrack := True\<rparr>)))
   = Some (Inr Undefined, round init name 0 j v rv (tr @ [ActionBody name]) [observerNo j])"
    using fed_body [OF assms(4), of D step handled "i + 8" name init j rv tr]
    by (simp add: add.assoc)
  have "drainQueue ?E (i + 16) (round init name 0 j v rv (tr @ [ActionBody name]) [observerNo j])
        = drainQueue ?E 16
            (round init name (0 + i) (j + i) (orbit step v i) (lastRead step rv v i)
               ((tr @ [ActionBody name]) @ firings step j v i) [observerNo (j + i)])"
    using assms(1,3) by (intro rounds) simp_all
  also have "\<dots> = Some (Inr (), round init name (Suc i) (Suc (j + i))
                 (orbit step v i) (orbit step v i)
                 (((tr @ [ActionBody name]) @ firings step j v i) @ firing (j + i) (orbit step v i))
                 [])"
    using settle_round [of 14 i step "orbit step v i" D handled init name "j + i"] assms(2,3)
    by (simp add: numeral_eq_Suc)
  finally have d: "drainQueue ?E (i + 16)
      (round init name 0 j v rv (tr @ [ActionBody name]) [observerNo j])
    = Some (Inr (), round init name (Suc i) (Suc (j + i)) (orbit step v i) (orbit step v i)
         (tr @ ActionBody name # firings step j v (Suc i)) [])"
    by (simp del: firings.simps add: firings_last)
  have "action ?E (Suc (Suc (i + 16))) name (Write 0 v (Return Undefined))
           (waiting init j c rv tr)
         = Some (Inr Undefined,
             waiting init (Suc (j + i)) (orbit step v i) (orbit step v i)
               (tr @ ActionBody name # firings step j v (Suc i)))"
    using action_returns [OF waiting_fields(1) b d]
    by (simp add: waiting_fields closed_round)
  then show ?thesis
    by (simp add: numeral_eq_Suc)
qed

lemma batch_circular:
  assumes "chain step v 101" and "v \<noteq> c"
  shows "action (feeding D step handled) 119 name (Write 0 v (Return Undefined))
           (waiting init j c rv tr)
         = Some (Inr Undefined,
             closed (stopped init name (j + 101) (orbit step v 101) (lastRead step rv v 101)
               (tr @ ActionBody name # firings step j v 101
                  @ [Invoked (observerNo (j + 101)), reported handled (circularError D)])))"
proof -
  let ?E = "feeding D step handled"
  have b: "exec ?E 117 NoDisposer (Write 0 v (Return Undefined))
     (logged (ActionBody name) (enterBulk name ((waiting init j c rv tr)\<lparr>doNotTrack := True\<rparr>)))
   = Some (Inr Undefined, round init name 0 j v rv (tr @ [ActionBody name]) [observerNo j])"
    using fed_body [OF assms(2), of D step handled 109 name init j rv tr]
    by simp
  have "drainQueue ?E (101 + 16) (round init name 0 j v rv (tr @ [ActionBody name]) [observerNo j])
        = drainQueue ?E 16
            (round init name (0 + 101) (j + 101) (orbit step v 101) (lastRead step rv v 101)
               ((tr @ [ActionBody name]) @ firings step j v 101) [observerNo (j + 101)])"
    using assms(1) by (intro rounds) simp_all
  also have "\<dots> = Some (Inr (), stopped init name (j + 101) (orbit step v 101)
                 (lastRead step rv v 101)
                 (((tr @ [ActionBody name]) @ firings step j v 101)
                    @ [Invoked (observerNo (j + 101)), reported handled (circularError D)]))"
    using last_round [of 14 D step handled init name "j + 101"]
    by (simp add: numeral_eq_Suc)
  finally have d: "drainQueue ?E 117
      (round init name 0 j v rv (tr @ [ActionBody name]) [observerNo j])
    = Some (Inr (), stopped init name (j + 101) (orbit step v 101) (lastRead step rv v 101)
         (tr @ ActionBody name # firings step j v 101
            @ [Invoked (observerNo (j + 101)), reported handled (circularError D)]))"
    by simp
  have "action ?E (Suc (Suc 117)) name (Write 0 v (Return Undefined))
           (waiting init j c rv tr)
         = Some (Inr Undefined,
             closed (stopped init name (j + 101) (orbit step v 101) (lastRead step rv v 101)
               (tr @ ActionBody name # firings step j v 101
                  @ [Invoked (observerNo (j + 101)), reported handled (circularError D)])))"
    using action_returns [OF waiting_fields(1) b d]
    by (simp add: waiting_fields closed_def)
  then show ?thesis
    by simp
qed

lemma batch_again:
  "action (feeding D step handled) (n + 8) name' (Write 0 w (Return Undefined))
     (closed (stopped init name j c rv tr))
     = Some (Inr Undefined,
         (closed (stopped init name j c rv (tr @ [ActionBody name'])))\<lparr>svalue := init(0 := w)\<rparr>)"
  by (cases handled; cases "w = c")
     (simp_all add: feeding_defs env_defs eval cong: weak_congs)

lemma stopped_fields:
  "trace (closed (stopped init name j c rv tr)) = tr"
  "svalue (closed (stopped init name j c rv tr)) = init(0 := c)"
  "observerMap (closed (stopped init name j c rv tr)) = (\<lambda>dependency. None)"
  "dependencyMap (closed (stopped init name j c rv tr)) = (\<lambda>observer. None)"
  "reactionsDepthMap (closed s) = (\<lambda>r. None)"
  "effectQueue (closed s) = None"
  by (simp_all add: closed_def stopped_def round_def waiting_def)

lemma circular_feeding: "circular = feeding circularNames always True"
  by (simp add: circular_def feeding_def circularNames_def always_def noReaction_def fun_eq_iff)

lemma chain_always: "chain always (Num a) m"
  by (induction m arbitrary: a) (simp_all add: advance_def always_def)

lemma orbit_always: "orbit always (Num a) m = Num (a + int m)"
  by (induction m arbitrary: a) (simp_all add: advance_def always_def)

section \<open>C5: a reaction that feeds itself is stopped, for good\<close>

text \<open>
  Claim C5, as the code has it, for the reaction
  \<^verbatim>\<open>reaction(() => count(), (c) => { const v = step(c); if (v !== none) count(v) }, options)\<close>
  created alone on signals of any values, with any names, any \<open>step\<close>, with or without
  \<^verbatim>\<open>onError\<close>, and every depth bound from 119 on.

  First part: the effect writes a new value at each of 101 firings from \<open>v\<close> on. Creating
  the reaction runs the action once. Then \<^verbatim>\<open>action(() => count(v))\<close>, for a \<open>v\<close> other than
  the value held, returns to its caller, and inside its batch the reaction fires 101 times
  with its effect called, so the signal ends at the 101st value; the 102nd firing finds the
  counter above \<^verbatim>\<open>MAX_REACTION_DEPTH\<close> and raises \<^verbatim>\<open>CircularReactionError\<close>, with the message
  of the code, which goes to \<^verbatim>\<open>onError\<close>, or to \<^verbatim>\<open>console.error\<close> when there is none.
  That firing does not subscribe the action again: no edge is left, the counter map is
  empty, and a later \<^verbatim>\<open>action(() => count(w))\<close>, for any \<open>w\<close>, changes the signal and leaves
  the log with nothing but its own body, so the reaction does not fire there.

  Second part: the effect writes a new value \<open>i\<close> times from \<open>v'\<close> on and \<open>i'\<close> times
  from \<open>w'\<close> on, and then leaves the signal as it is, with \<open>i\<close> and \<open>i'\<close> at most 100.
  Then \<^verbatim>\<open>action(() => count(v'))\<close> fires the reaction \<open>i + 1\<close> times and a later
  \<^verbatim>\<open>action(() => count(w'))\<close> fires it \<open>i' + 1\<close> times, and no error is raised in either,
  however many firings the two batches have together: the counter starts from zero in the
  second batch.
\<close>

theorem circular_reaction_stops_after_101_effects:
  assumes "119 \<le> n"
  shows "(chain step v 101 \<and> v \<noteq> init 0 \<longrightarrow>
           returns (reaction (feeding D step handled) n 0 (initial init))
             (\<lambda>u s1. trace s1 = [Acting 0] \<and>
                returns (action (feeding D step handled) n name (Write 0 v (Return Undefined)) s1)
                  (\<lambda>r s2. since s1 s2
                       = ActionBody name # firings step 0 v 101
                         @ [Invoked (observerNo 101), reported handled (circularError D)]
                     \<and> length (filter isReacting (since s1 s2)) = 101
                     \<and> svalue s2 0 = orbit step v 101
                     \<and> observerMap s2 = (\<lambda>dependency. None)
                     \<and> dependencyMap s2 = (\<lambda>observer. None)
                     \<and> reactionsDepthMap s2 = (\<lambda>r. None) \<and> effectQueue s2 = None
                     \<and> returns (action (feeding D step handled) n name'
                                  (Write 0 w (Return Undefined)) s2)
                         (\<lambda>r s3. svalue s3 0 = w \<and> since s2 s3 = [ActionBody name']))))
       \<and> (chain step' v' i \<and> advance step' (orbit step' v' i) = orbit step' v' i \<and> i \<le> 100
          \<and> v' \<noteq> init' 0
          \<and> chain step' w' i' \<and> advance step' (orbit step' w' i') = orbit step' w' i' \<and> i' \<le> 100
          \<and> w' \<noteq> orbit step' v' i \<longrightarrow>
           returns (reaction (feeding D' step' handled') n 0 (initial init'))
             (\<lambda>u s1.
                returns (action (feeding D' step' handled') n nameA
                           (Write 0 v' (Return Undefined)) s1)
                  (\<lambda>r s2. since s1 s2 = ActionBody nameA # firings step' 0 v' (Suc i)
                     \<and> length (filter isReacting (since s1 s2)) = Suc i
                     \<and> returns (action (feeding D' step' handled') n nameB
                                  (Write 0 w' (Return Undefined)) s2)
                         (\<lambda>r s3. since s2 s3 = ActionBody nameB # firings step' (Suc i) w' (Suc i')
                            \<and> length (filter isReacting (since s2 s3)) = Suc i'))))"
proof (intro conjI impI)
  from assms obtain m where n: "n = m + 8"
    using depth_ge [of 8 n] by auto
  have c: "reaction (feeding D step handled) n 0 (initial init)
             = Some (Inr (), waiting init 0 (init 0) (init 0) [Acting 0])" for D step handled init
    unfolding n by (rule fed_created)
  have a: "action (feeding D step handled) n name' (Write 0 w (Return Undefined))
     (closed (stopped init name j c rv tr))
     = Some (Inr Undefined,
         (closed (stopped init name j c rv (tr @ [ActionBody name'])))\<lparr>svalue := init(0 := w)\<rparr>)"
    for j c rv tr
    unfolding n by (rule batch_again)
  {
    assume h: "chain step v 101 \<and> v \<noteq> init 0"
    have b: "action (feeding D step handled) n name (Write 0 v (Return Undefined))
           (waiting init 0 (init 0) (init 0) [Acting 0])
         = Some (Inr Undefined,
             closed (stopped init name (0 + 101) (orbit step v 101) (lastRead step (init 0) v 101)
               ([Acting 0] @ ActionBody name # firings step 0 v 101
                  @ [Invoked (observerNo (0 + 101)), reported handled (circularError D)])))"
      using h by (intro more_depth(10) [OF assms] batch_circular) simp_all
    show "returns (reaction (feeding D step handled) n 0 (initial init))
             (\<lambda>u s1. trace s1 = [Acting 0] \<and>
                returns (action (feeding D step handled) n name (Write 0 v (Return Undefined)) s1)
                  (\<lambda>r s2. since s1 s2
                       = ActionBody name # firings step 0 v 101
                         @ [Invoked (observerNo 101), reported handled (circularError D)]
                     \<and> length (filter isReacting (since s1 s2)) = 101
                     \<and> svalue s2 0 = orbit step v 101
                     \<and> observerMap s2 = (\<lambda>dependency. None)
                     \<and> dependencyMap s2 = (\<lambda>observer. None)
                     \<and> reactionsDepthMap s2 = (\<lambda>r. None) \<and> effectQueue s2 = None
                     \<and> returns (action (feeding D step handled) n name'
                                  (Write 0 w (Return Undefined)) s2)
                         (\<lambda>r s3. svalue s3 0 = w \<and> since s2 s3 = [ActionBody name'])))"
      by (simp add: c b a returns_simps stopped_fields waiting_fields since_def
            firings_reacting reported_def)
  }
  {
    assume h: "chain step' v' i \<and> advance step' (orbit step' v' i) = orbit step' v' i \<and> i \<le> 100
          \<and> v' \<noteq> init' 0
          \<and> chain step' w' i' \<and> advance step' (orbit step' w' i') = orbit step' w' i' \<and> i' \<le> 100
          \<and> w' \<noteq> orbit step' v' i"
    let ?E = "feeding D' step' handled'"
    have b1: "action ?E n nameA (Write 0 v' (Return Undefined))
           (waiting init' 0 (init' 0) (init' 0) [Acting 0])
         = Some (Inr Undefined,
             waiting init' (Suc i) (orbit step' v' i) (orbit step' v' i)
               ([Acting 0] @ ActionBody nameA # firings step' 0 v' (Suc i)))"
      using h assms
        more_depth(10) [of "i + 18" n, OF _ batch_settles
          [of step' v' i "init' 0" D' handled' nameA init' 0 "init' 0" "[Acting 0]"]]
      by simp
    have b2: "action ?E n nameB (Write 0 w' (Return Undefined))
           (waiting init' (Suc i) (orbit step' v' i) (orbit step' v' i) tr)
         = Some (Inr Undefined,
             waiting init' (Suc (Suc i + i')) (orbit step' w' i') (orbit step' w' i')
               (tr @ ActionBody nameB # firings step' (Suc i) w' (Suc i')))" for tr
      using h assms by (intro more_depth(10) [of "i' + 18" n] batch_settles) simp_all
    show "returns (reaction (feeding D' step' handled') n 0 (initial init'))
             (\<lambda>u s1.
                returns (action (feeding D' step' handled') n nameA
                           (Write 0 v' (Return Undefined)) s1)
                  (\<lambda>r s2. since s1 s2 = ActionBody nameA # firings step' 0 v' (Suc i)
                     \<and> length (filter isReacting (since s1 s2)) = Suc i
                     \<and> returns (action (feeding D' step' handled') n nameB
                                  (Write 0 w' (Return Undefined)) s2)
                         (\<lambda>r s3. since s2 s3 = ActionBody nameB # firings step' (Suc i) w' (Suc i')
                            \<and> length (filter isReacting (since s2 s3)) = Suc i')))"
      by (simp del: firings.simps
            add: c b1 b2 returns_simps waiting_fields since_def firings_reacting)
  }
qed

theorem circular_reaction_stops_after_101_effects_witness:
  "(119::nat) \<le> 119
   \<and> chain always (Num 0) 101 \<and> Num 0 \<noteq> Num (- 1)
   \<and> returns (reaction (feeding circularNames always True) 119 0 (initial (\<lambda>x. Num (- 1))))
       (\<lambda>u s1. trace s1 = [Acting 0] \<and>
          returns (action (feeding circularNames always True) 119 ''Action''
                     (Write 0 (Num 0) (Return Undefined)) s1)
            (\<lambda>r s2. since s1 s2
                 = ActionBody ''Action'' # firings always 0 (Num 0) 101
                   @ [Invoked (observerNo 101), Handling (circularError circularNames)]
               \<and> length (filter isReacting (since s1 s2)) = 101
               \<and> svalue s2 0 = Num 101
               \<and> observerMap s2 = (\<lambda>dependency. None)
               \<and> dependencyMap s2 = (\<lambda>observer. None)
               \<and> reactionsDepthMap s2 = (\<lambda>r. None) \<and> effectQueue s2 = None
               \<and> returns (action (feeding circularNames always True) 119 ''Again''
                            (Write 0 (Num 7) (Return Undefined)) s2)
                   (\<lambda>r s3. svalue s3 0 = Num 7 \<and> since s2 s3 = [ActionBody ''Again''])))
   \<and> chain pausing (Num 1) 59
   \<and> advance pausing (orbit pausing (Num 1) 59) = orbit pausing (Num 1) 59
   \<and> (59::nat) \<le> 100 \<and> Num 1 \<noteq> Num 0
   \<and> chain pausing (Num 61) 59
   \<and> advance pausing (orbit pausing (Num 61) 59) = orbit pausing (Num 61) 59
   \<and> Num 61 \<noteq> orbit pausing (Num 1) 59
   \<and> returns (reaction (feeding circularNames pausing False) 119 0 (initial (\<lambda>x. Num 0)))
       (\<lambda>u s1.
          returns (action (feeding circularNames pausing False) 119 ''First''
                     (Write 0 (Num 1) (Return Undefined)) s1)
            (\<lambda>r s2. since s1 s2 = ActionBody ''First'' # firings pausing 0 (Num 1) 60
               \<and> length (filter isReacting (since s1 s2)) = 60
               \<and> returns (action (feeding circularNames pausing False) 119 ''Second''
                            (Write 0 (Num 61) (Return Undefined)) s2)
                   (\<lambda>r s3. since s2 s3 = ActionBody ''Second'' # firings pausing 60 (Num 61) 60
                      \<and> length (filter isReacting (since s2 s3)) = 60)))"
proof -
  have o1: "orbit pausing (Num 1) 59 = Num 60"
    by code_simp
  have o2: "orbit pausing (Num 61) 59 = Num 120"
    by code_simp
  have c1: "chain pausing (Num 1) 59"
    by code_simp
  have c2: "chain pausing (Num 61) 59"
    by code_simp
  have a: "advance pausing (Num 60) = Num 60" "advance pausing (Num 120) = Num 120"
    by (simp_all add: advance_def)
  from circular_reaction_stops_after_101_effects
    [where n = 119 and step = always and v = "Num 0" and init = "\<lambda>x. Num (- 1)"
       and D = circularNames and handled = True and name = "''Action''" and name' = "''Again''"
       and w = "Num 7" and step' = pausing and v' = "Num 1" and i = 59
       and init' = "\<lambda>x. Num 0" and w' = "Num 61" and i' = 59 and D' = circularNames
       and handled' = False and nameA = "''First''" and nameB = "''Second''"]
    chain_always [of 0 101] orbit_always [of 0 101] o1 o2 c1 c2 a
  show ?thesis
    by (simp add: reported_def)
qed

text \<open>The reaction that was stopped, in a later batch: the signal goes from \<open>101\<close> to \<open>0\<close>
  and the reaction does not fire.\<close>

theorem stopped_reaction_does_not_fire_again:
  "returns (reaction circular 119 0 (initial (\<lambda>x. Num (- 1))))
     (\<lambda>u s1.
        returns (action circular 119 ''Action'' (Write 0 (Num 0) (Return Undefined)) s1)
          (\<lambda>r s2. svalue s2 0 = Num 101 \<and>
             returns (action circular 119 ''Again'' (Write 0 (Num 0) (Return Undefined)) s2)
               (\<lambda>r s3. svalue s3 0 = Num 0 \<and> since s2 s3 = [ActionBody ''Again''])))"
proof -
  have c: "reaction (feeding circularNames always True) 119 0 (initial (\<lambda>x. Num (- 1)))
             = Some (Inr (), waiting (\<lambda>x. Num (- 1)) 0 (Num (- 1)) (Num (- 1)) [Acting 0])"
    using fed_created [of circularNames always True 111 "\<lambda>x. Num (- 1)"] by simp
  have b: "action (feeding circularNames always True) 119 ''Action''
             (Write 0 (Num 0) (Return Undefined))
             (waiting (\<lambda>x. Num (- 1)) 0 (Num (- 1)) (Num (- 1)) [Acting 0])
         = Some (Inr Undefined,
             closed (stopped (\<lambda>x. Num (- 1)) ''Action'' (0 + 101) (orbit always (Num 0) 101)
               (lastRead always (Num (- 1)) (Num 0) 101)
               ([Acting 0] @ ActionBody ''Action'' # firings always 0 (Num 0) 101
                  @ [Invoked (observerNo (0 + 101)), reported True (circularError circularNames)])))"
    by (intro batch_circular chain_always) simp
  have a: "action (feeding circularNames always True) 119 ''Again''
     (Write 0 (Num 0) (Return Undefined)) (closed (stopped init name j c rv tr))
     = Some (Inr Undefined,
         (closed (stopped init name j c rv (tr @ [ActionBody ''Again''])))
           \<lparr>svalue := init(0 := Num 0)\<rparr>)" for init name j c rv tr
    using batch_again [of circularNames always True 111 "''Again''" "Num 0" init name j c rv tr]
    by simp
  show ?thesis
    unfolding circular_feeding
    by (simp add: c b a returns_simps stopped_fields since_def orbit_always)
qed

section \<open>C6: an action that throws drains the queue first, when it opened the batch\<close>




section \<open>C8: the effect of a once can fire twice\<close>

text \<open>
  Claim C8, at \<^verbatim>\<open>once(() => a(), () => b(5)); once(() => { a(); b(); }, effect); a(2);\<close>
  with \<^verbatim>\<open>a\<close> and \<^verbatim>\<open>b\<close> holding \<open>1\<close>. The write \<^verbatim>\<open>a(2)\<close> puts both observers in the
  queue. The first round of the drain takes that queue and invokes the first observer, whose
  effect writes \<^verbatim>\<open>b\<close>: the second observer, still subscribed to \<^verbatim>\<open>b\<close>, is put in the new
  queue. The round goes on and invokes the second observer, and the next round invokes it
  again: its effect is called twice for the one write.
\<close>

theorem once_effect_fires_twice:
  "returns (once cascade 30 (UserOnce 0) (initial (\<lambda>x. Num 1)))
     (\<lambda>first s1.
        returns (once cascade 30 (UserOnce 1) s1)
          (\<lambda>second s2.
             returns (signal_set cascade 30 0 (Num 2) s2)
               (\<lambda>u s3. since s2 s3
                    = [Invoked (OnceObserver 0 (UserOnce 0)), Effecting 0,
                       Invoked (OnceObserver 1 (UserOnce 1)), Effecting 1,
                       Invoked (OnceObserver 1 (UserOnce 1)), Effecting 1]
                  \<and> length (filter (\<lambda>ev. ev = Effecting 1) (trace s3)) = 2)))"
  by (simp add: cascade_def since_def env_defs eval cong: weak_congs)

text \<open>With no other observer in the way the same program does what is expected of it: a
  \<^verbatim>\<open>once\<close> whose action calls the disposer keeps no edge, also for what it reads afterwards,
  and its effect is not called; the effect of a \<^verbatim>\<open>once\<close> is called on the first change
  and not on the second.\<close>

lemma once_in_the_simple_cases:
  "returns (once cascade 30 (UserOnce 2) (initial (\<lambda>x. Num 1)))
     (\<lambda>disposed s1. observerMap s1 = (\<lambda>dependency. None)
        \<and> dependencyMap s1 = (\<lambda>observer. None)
        \<and> returns (signal_set cascade 30 1 (Num 2) s1)
            (\<lambda>u s2. trace s2 = [Observing 2]))
   \<and> returns (once cascade 30 (UserOnce 1) (initial (\<lambda>x. Num 1)))
       (\<lambda>second s1.
          returns (signal_set cascade 30 0 (Num 2) s1)
            (\<lambda>u s2. since s1 s2 = [Invoked (OnceObserver 0 (UserOnce 1)), Effecting 1]
               \<and> returns (signal_set cascade 30 0 (Num 3) s2)
                   (\<lambda>u s3. since s2 s3 = [])))"
  by (simp add: cascade_def since_def env_defs eval cong: weak_congs)

end
